theory Spec2Isabelle
  imports Main "HOL-Library.Word"
begin

section \<open>The gateway's transcript-to-chat bridge\<close>

text \<open>
  A shallow embedding of \<^verbatim>\<open>src/gateway/server-transcript-events.ts\<close>: the header reader
  \<^verbatim>\<open>readSessionIdFromTranscript\<close>, the time-bounded caches \<^verbatim>\<open>getCached\<close> and
  \<^verbatim>\<open>setCached\<close>, the store scan \<^verbatim>\<open>resolveSessionKeyForSessionId\<close>, the orchestrator
  \<^verbatim>\<open>handleUpdate\<close> and the subscription callback of
  \<^verbatim>\<open>attachGatewayTranscriptChatBridge\<close>.

  What the surroundings answer is a parameter of the model: the file system, the UTF-8
  decoder, \<^verbatim>\<open>JSON.parse\<close>, the session-store loader, \<^verbatim>\<open>randomUUID\<close>, the clock and
  the two sinks. Of these \<^verbatim>\<open>fs.openSync\<close>, \<^verbatim>\<open>fs.readSync\<close>, \<^verbatim>\<open>fs.closeSync\<close>,
  \<^verbatim>\<open>JSON.parse\<close>, the store loader, the broadcast sink and the logger may throw;
  \<^verbatim>\<open>Date.now\<close> and \<^verbatim>\<open>randomUUID\<close> return normally.
\<close>

subsection \<open>JavaScript strings\<close>

text \<open>A JavaScript string is a sequence of UTF-16 code units; \<^verbatim>\<open>===\<close> compares them one by one.\<close>

type_synonym jschar = "16 word"
type_synonym jsstring = "jschar list"
type_synonym byte = "8 word"

definition js :: "string \<Rightarrow> jsstring" where
  "js s = map (\<lambda>c. of_nat (of_char c)) s"

text \<open>
  \<^verbatim>\<open>String.prototype.trim\<close> strips the code units of ECMAScript's WhiteSpace and
  LineTerminator productions from both ends.
\<close>

definition isWhiteSpace :: "jschar \<Rightarrow> bool" where
  "isWhiteSpace c \<longleftrightarrow>
     c = 0x0009 \<or> c = 0x000A \<or> c = 0x000B \<or> c = 0x000C \<or> c = 0x000D \<or> c = 0x0020 \<or>
     c = 0x00A0 \<or> c = 0x1680 \<or> (0x2000 \<le> c \<and> c \<le> 0x200A) \<or> c = 0x2028 \<or> c = 0x2029 \<or>
     c = 0x202F \<or> c = 0x205F \<or> c = 0x3000 \<or> c = 0xFEFF"

definition trim :: "jsstring \<Rightarrow> jsstring" where
  "trim s = rev (dropWhile isWhiteSpace (rev (dropWhile isWhiteSpace s)))"

text \<open>
  \<^verbatim>\<open>chunk.split(/\r?\n/)\<close>: the string is cut at every line feed, together with a
  carriage return right before it; the empty string gives one empty line.
\<close>

fun splitLines :: "jsstring \<Rightarrow> jsstring list" where
  "splitLines [] = [[]]"
| "splitLines (c # cs) =
     (if c = 0x0A then [] # splitLines cs
      else if c = 0x0D \<and> take 1 cs = [0x0A] then [] # splitLines (drop 1 cs)
      else (let r = splitLines cs in (c # hd r) # tl r))"

text \<open>
  A value of type \<^verbatim>\<open>string | null\<close> is tested by its truthiness: \<^verbatim>\<open>null\<close> and the empty
  string are falsy. \<open>whenTruthy\<close> keeps a truthy value and collapses the falsy ones.
\<close>

fun whenTruthy :: "jsstring option \<Rightarrow> jsstring option" where
  "whenTruthy None = None"
| "whenTruthy (Some s) = (if s = [] then None else Some s)"

subsection \<open>Parsed JSON\<close>

typedecl jsnumber

datatype json =
    JNull
  | JBool bool
  | JNum jsnumber
  | JStr jsstring
  | JArr "json list"
  | JObj "jsstring \<Rightarrow> json option"

text \<open>
  Reading the property \<^verbatim>\<open>type\<close> or \<^verbatim>\<open>id\<close> of a parsed value (\<^verbatim>\<open>parsed?.type\<close>,
  \<^verbatim>\<open>parsed.id\<close>): an object answers with its own property of that name, every other
  value (\<^verbatim>\<open>null\<close>, a primitive, an array) with \<^verbatim>\<open>undefined\<close>, here \<open>None\<close>. An
  object is the map from the names of its own properties to their values.
\<close>

fun field :: "jsstring \<Rightarrow> json \<Rightarrow> json option" where
  "field name (JObj props) = props name"
| "field name _ = None"

text \<open>\<^verbatim>\<open>x === "literal"\<close> for a property that was read: true for a string of the same code units only.\<close>

fun strictEq :: "json option \<Rightarrow> jsstring \<Rightarrow> bool" where
  "strictEq (Some (JStr s)) lit = (s = lit)"
| "strictEq _ lit = False"

subsection \<open>The surroundings during one notification\<close>

datatype fsfile = OpenFails | ReadFails | Bytes "byte list"

text \<open>A call that throws, or returns a value.\<close>

datatype 'a completion = Throws | Returns 'a

text \<open>
  The session store as \<^verbatim>\<open>Object.entries(store)\<close> lists it: the keys in iteration order,
  each with its entry's \<^verbatim>\<open>sessionId\<close> when that is a string (\<open>None\<close> for an entry that is
  missing or has no string there).
\<close>

type_synonym session_store = "(jsstring \<times> jsstring option) list"

text \<open>The six places of \<^verbatim>\<open>handleUpdate\<close> that read \<^verbatim>\<open>Date.now()\<close>, in program order.\<close>

datatype site = GetKeyByFile | GetIdByFile | SetIdByFile | GetKeyById | SetKeyById | SetKeyByFile

record env =
  fs_file :: "jsstring \<Rightarrow> fsfile"
  utf8 :: "byte list \<Rightarrow> jsstring"
  JSON_parse :: "jsstring \<Rightarrow> json option"
  loadStore :: "session_store option"
  randomUUID :: jsstring
  Date_now :: "site \<Rightarrow> int"
  broadcastThrows :: bool
  has_log :: bool
  closeThrows :: "jsstring \<Rightarrow> bool"
  logThrows :: "jsstring \<Rightarrow> bool"

text \<open>
  \<open>fs_file\<close>: what opening and reading a path gives; \<open>utf8\<close>: \<^verbatim>\<open>buffer.toString("utf-8")\<close>;
  \<open>JSON_parse\<close>: \<open>None\<close> when \<^verbatim>\<open>JSON.parse\<close> throws; \<open>loadStore\<close>: \<open>None\<close> when
  \<^verbatim>\<open>loadConfig\<close> or \<^verbatim>\<open>loadCombinedSessionStoreForGateway\<close> throws; \<open>randomUUID\<close>: the
  value the generator returns during this notification; \<open>Date_now\<close>: the clock reading at
  each place; \<open>broadcastThrows\<close>: whether \<^verbatim>\<open>params.broadcast\<close> throws; \<open>has_log\<close>:
  whether \<^verbatim>\<open>params.log\<close> was given; \<open>closeThrows\<close>: whether \<^verbatim>\<open>fs.closeSync\<close> throws on
  the descriptor opened for a path; \<open>logThrows\<close>: whether \<^verbatim>\<open>params.log.warn\<close> throws on a
  message.
\<close>

subsection \<open>Header reader\<close>

definition HEADER_READ_BYTES :: nat where
  "HEADER_READ_BYTES = 8 * 1024"

definition CACHE_TTL_MS :: int where
  "CACHE_TTL_MS = 10 * 60000"

text \<open>The loop over the lines (lines 31-48 of the source).\<close>

fun scanLines :: "(jsstring \<Rightarrow> json option) \<Rightarrow> jsstring list \<Rightarrow> jsstring option" where
  "scanLines parse [] = None"
| "scanLines parse (line # rest) =
     (let trimmed = trim line in
      if trimmed = [] then scanLines parse rest
      else (case parse trimmed of
              None \<Rightarrow> None
            | Some parsed \<Rightarrow>
                if \<not> strictEq (field (js ''type'') parsed) (js ''session'') then scanLines parse rest
                else (let ident = (case field (js ''id'') parsed of
                                     Some (JStr s) \<Rightarrow> trim s
                                   | _ \<Rightarrow> [])
                      in if ident \<noteq> [] then Some ident else scanLines parse rest)))"

text \<open>
  The \<^verbatim>\<open>try\<close> block with its two \<^verbatim>\<open>catch\<close> clauses (lines 22-50): every failure of
  opening, reading or parsing is turned into \<^verbatim>\<open>null\<close>.
\<close>

definition readPrefix :: "env \<Rightarrow> jsstring \<Rightarrow> jsstring option" where
  "readPrefix e sessionFile =
     (case fs_file e sessionFile of
        OpenFails \<Rightarrow> None
      | ReadFails \<Rightarrow> None
      | Bytes content \<Rightarrow>
          (let bytesRead = min (length content) HEADER_READ_BYTES in
           if bytesRead \<le> 0 then None
           else scanLines (JSON_parse e) (splitLines (utf8 e (take bytesRead content)))))"

text \<open>
  The whole function: the \<^verbatim>\<open>finally\<close> block (lines 51-55) closes the descriptor when the
  file was opened. It stands outside both \<^verbatim>\<open>catch\<close> clauses, so an exception of
  \<^verbatim>\<open>fs.closeSync\<close> replaces the value about to be returned and leaves the function.
\<close>

definition readSessionIdFromTranscript :: "env \<Rightarrow> jsstring \<Rightarrow> jsstring option completion" where
  "readSessionIdFromTranscript e sessionFile =
     (let r = readPrefix e sessionFile;
          fd_opened = (fs_file e sessionFile \<noteq> OpenFails)
      in if fd_opened \<and> closeThrows e sessionFile then Throws else Returns r)"

subsection \<open>Caches\<close>

record cache_entry =
  val :: jsstring
  ts :: int

type_synonym cache = "jsstring \<rightharpoonup> cache_entry"

definition getCached :: "int \<Rightarrow> cache \<Rightarrow> jsstring \<Rightarrow> jsstring option \<times> cache" where
  "getCached now m k =
     (case m k of
        None \<Rightarrow> (None, m)
      | Some entry \<Rightarrow>
          if now - ts entry > CACHE_TTL_MS then (None, m(k := None))
          else (Some (val entry), m))"

definition setCached :: "int \<Rightarrow> cache \<Rightarrow> jsstring \<Rightarrow> jsstring \<Rightarrow> cache" where
  "setCached now m k v = m(k \<mapsto> \<lparr>val = v, ts = now\<rparr>)"

subsection \<open>Session key resolver\<close>

fun scanStore :: "session_store \<Rightarrow> jsstring \<Rightarrow> jsstring option" where
  "scanStore [] sessionId = None"
| "scanStore ((k, entry) # rest) sessionId =
     (let entrySessionId = (case entry of Some s \<Rightarrow> trim s | None \<Rightarrow> []) in
      if entrySessionId \<noteq> [] \<and> entrySessionId = sessionId then Some k
      else scanStore rest sessionId)"

definition resolveSessionKeyForSessionId :: "env \<Rightarrow> jsstring \<Rightarrow> jsstring option completion" where
  "resolveSessionKeyForSessionId e sessionId =
     (case loadStore e of
        None \<Rightarrow> Throws
      | Some store \<Rightarrow> Returns (scanStore store sessionId))"

subsection \<open>The bridge\<close>

record bridge =
  sessionKeyByFile :: cache
  sessionIdByFile :: cache
  sessionKeyById :: cache

record payload =
  runId :: jsstring
  sessionKey :: jsstring
  state :: jsstring

record opts =
  dropIfSlow :: bool

datatype cache_name = SessionKeyByFile | SessionIdByFile | SessionKeyById

text \<open>
  What one notification does to the outside, in order: the calls of \<^verbatim>\<open>getCached\<close>, of
  the header reader, of the resolver, of \<^verbatim>\<open>params.broadcast\<close> and of \<^verbatim>\<open>params.log.warn\<close>.
\<close>

datatype effect =
    Lookup cache_name jsstring
  | ReadHeader jsstring
  | ResolveKey jsstring
  | Broadcast jsstring payload opts
  | Warn jsstring

datatype outcome = Returned | Threw

type_synonym result = "outcome \<times> bridge \<times> effect list"

definition attach :: bridge where
  "attach = \<lparr>sessionKeyByFile = Map.empty, sessionIdByFile = Map.empty, sessionKeyById = Map.empty\<rparr>"

definition after :: "effect list \<Rightarrow> result \<Rightarrow> result" where
  "after tr r = (case r of (out, b, tr') \<Rightarrow> (out, b, tr @ tr'))"

text \<open>
  \<^verbatim>\<open>params.log?.warn(msg)\<close>: nothing happens without a logger; with one the call is made, and
  it may throw.
\<close>

definition warn :: "env \<Rightarrow> bridge \<Rightarrow> jsstring \<Rightarrow> result" where
  "warn e b msg =
     (if has_log e then (if logThrows e msg then Threw else Returned, b, [Warn msg])
      else (Returned, b, []))"

text \<open>\<^verbatim>\<open>params.broadcast("chat", {runId, sessionKey, state: "final"}, {dropIfSlow: true})\<close>\<close>

definition broadcast :: "env \<Rightarrow> bridge \<Rightarrow> jsstring \<Rightarrow> jsstring \<Rightarrow> result" where
  "broadcast e b rid k =
     (if broadcastThrows e then Threw else Returned, b,
      [Broadcast (js ''chat'') \<lparr>runId = rid, sessionKey = k, state = js ''final''\<rparr>
         \<lparr>dropIfSlow = True\<rparr>])"

text \<open>Lines 129-138: the fast-path cache is filled, then the event goes out.\<close>

definition publish :: "env \<Rightarrow> bridge \<Rightarrow> jsstring \<Rightarrow> jsstring \<Rightarrow> jsstring \<Rightarrow> result" where
  "publish e b sessionFile sessionId k =
     broadcast e
       (b\<lparr>sessionKeyByFile :=
            setCached (Date_now e SetKeyByFile) (sessionKeyByFile b) sessionFile k\<rparr>)
       (js ''transcript-'' @ sessionId @ js ''-'' @ randomUUID e) k"

text \<open>Lines 119-127, then 129-138: from a session identifier to its key.\<close>

definition resolveKey :: "env \<Rightarrow> bridge \<Rightarrow> jsstring \<Rightarrow> jsstring \<Rightarrow> result" where
  "resolveKey e b sessionFile sessionId =
     (let (cached, m) = getCached (Date_now e GetKeyById) (sessionKeyById b) sessionId;
          b1 = b\<lparr>sessionKeyById := m\<rparr>
      in after [Lookup SessionKeyById sessionId]
        (case whenTruthy cached of
           Some k \<Rightarrow> publish e b1 sessionFile sessionId k
         | None \<Rightarrow>
             after [ResolveKey sessionId]
               (case resolveSessionKeyForSessionId e sessionId of
                  Throws \<Rightarrow> (Threw, b1, [])
                | Returns r \<Rightarrow>
                    (case whenTruthy r of
                       None \<Rightarrow>
                         warn e b1
                           (js ''transcript update ignored; session key not found (''
                            @ sessionId @ js '')'')
                     | Some k \<Rightarrow>
                         publish e
                           (b1\<lparr>sessionKeyById :=
                                 setCached (Date_now e SetKeyById) (sessionKeyById b1) sessionId k\<rparr>)
                           sessionFile sessionId k))))"

text \<open>Lines 110-117, then the rest: from the file to its session identifier.\<close>

definition resolveId :: "env \<Rightarrow> bridge \<Rightarrow> jsstring \<Rightarrow> result" where
  "resolveId e b sessionFile =
     (let (cached, m) = getCached (Date_now e GetIdByFile) (sessionIdByFile b) sessionFile;
          b1 = b\<lparr>sessionIdByFile := m\<rparr>
      in after [Lookup SessionIdByFile sessionFile]
        (case whenTruthy cached of
           Some sessionId \<Rightarrow> resolveKey e b1 sessionFile sessionId
         | None \<Rightarrow>
             after [ReadHeader sessionFile]
               (case readSessionIdFromTranscript e sessionFile of
                  Throws \<Rightarrow> (Threw, b1, [])
                | Returns r \<Rightarrow>
                    (case whenTruthy r of
                       None \<Rightarrow> (Returned, b1, [])
                     | Some sessionId \<Rightarrow>
                         resolveKey e
                           (b1\<lparr>sessionIdByFile :=
                                 setCached (Date_now e SetIdByFile) (sessionIdByFile b1)
                                   sessionFile sessionId\<rparr>)
                           sessionFile sessionId))))"

definition handleUpdate :: "env \<Rightarrow> bridge \<Rightarrow> jsstring \<Rightarrow> result" where
  "handleUpdate e b sessionFile =
     (let (cachedKey, m) = getCached (Date_now e GetKeyByFile) (sessionKeyByFile b) sessionFile;
          b1 = b\<lparr>sessionKeyByFile := m\<rparr>
      in after [Lookup SessionKeyByFile sessionFile]
        (case whenTruthy cachedKey of
           Some k \<Rightarrow> broadcast e b1 (js ''transcript-'' @ randomUUID e) k
         | None \<Rightarrow> resolveId e b1 sessionFile))"

text \<open>
  The callback given to \<^verbatim>\<open>onSessionTranscriptUpdate\<close> (lines 141-151); the argument is the
  notification's \<^verbatim>\<open>sessionFile\<close>, \<open>None\<close> when the field is absent (the notification is
  an object and the field, when present, a string, as the callback's type says). The outcome is what
  the watcher sees: an exception of \<^verbatim>\<open>handleUpdate\<close> is caught, but the warning in the
  \<^verbatim>\<open>catch\<close> block is itself unguarded.
\<close>

definition onUpdate :: "env \<Rightarrow> bridge \<Rightarrow> jsstring option \<Rightarrow> result" where
  "onUpdate e b update_sessionFile =
     (case whenTruthy (map_option trim update_sessionFile) of
        None \<Rightarrow> (Returned, b, [])
      | Some sessionFile \<Rightarrow>
          (case handleUpdate e b sessionFile of
             (Returned, b', tr) \<Rightarrow> (Returned, b', tr)
           | (Threw, b', tr) \<Rightarrow>
               after tr
                 (warn e b'
                    (js ''failed to handle transcript update ('' @ sessionFile @ js '')''))))"

text \<open>
  The notifications of a watcher, delivered one after the other, whatever the outcome of the
  callback on the ones before.
\<close>

fun run :: "bridge \<Rightarrow> (env \<times> jsstring option) list \<Rightarrow> bridge \<times> effect list" where
  "run b [] = (b, [])"
| "run b ((e, u) # rest) =
     (let (out, b1, tr1) = onUpdate e b u;
          (b2, tr2) = run b1 rest
      in (b2, tr1 @ tr2))"

section \<open>Notions of the specification\<close>

subsection \<open>Header records\<close>

definition blank :: "jsstring \<Rightarrow> bool" where
  "blank s = list_all isWhiteSpace s"

definition sessionRecordId :: "json \<Rightarrow> jsstring option" where
  "sessionRecordId v =
     (case v of
        JObj props \<Rightarrow>
          (case (props (js ''type''), props (js ''id'')) of
             (Some (JStr kind), Some (JStr ident)) \<Rightarrow>
               if kind = js ''session'' \<and> \<not> blank ident then Some (trim ident) else None
           | _ \<Rightarrow> None)
      | _ \<Rightarrow> None)"

definition malformed :: "(jsstring \<Rightarrow> json option) \<Rightarrow> jsstring \<Rightarrow> bool" where
  "malformed parse line \<longleftrightarrow> \<not> blank line \<and> parse (trim line) = None"

definition qualifying :: "(jsstring \<Rightarrow> json option) \<Rightarrow> jsstring \<Rightarrow> jsstring option" where
  "qualifying parse line =
     (if blank line then None
      else (case parse (trim line) of None \<Rightarrow> None | Some v \<Rightarrow> sessionRecordId v))"

subsection \<open>What a notification resolves to\<close>

text \<open>The payloads broadcast and the warnings logged, read off the effects.\<close>

fun payloads :: "effect list \<Rightarrow> payload list" where
  "payloads [] = []"
| "payloads (Broadcast ev p opt # tr) = p # payloads tr"
| "payloads (x # tr) = payloads tr"

fun warnings :: "effect list \<Rightarrow> jsstring list" where
  "warnings [] = []"
| "warnings (Warn msg # tr) = msg # warnings tr"
| "warnings (x # tr) = warnings tr"

text \<open>
  The effects and the outcome of a warning, the broadcast of a payload as the bridge makes it,
  the outcome of a call of the sink, and the two warning messages.
\<close>

definition logged :: "env \<Rightarrow> jsstring \<Rightarrow> effect list" where
  "logged e msg = (if has_log e then [Warn msg] else [])"

definition logOutcome :: "env \<Rightarrow> jsstring \<Rightarrow> outcome" where
  "logOutcome e msg = (if has_log e \<and> logThrows e msg then Threw else Returned)"

definition chatEvent :: "jsstring \<Rightarrow> jsstring \<Rightarrow> effect" where
  "chatEvent rid k =
     Broadcast (js ''chat'') \<lparr>runId = rid, sessionKey = k, state = js ''final''\<rparr> \<lparr>dropIfSlow = True\<rparr>"

definition thrown :: "env \<Rightarrow> outcome" where
  "thrown e = (if broadcastThrows e then Threw else Returned)"

definition notFoundMessage :: "jsstring \<Rightarrow> jsstring" where
  "notFoundMessage sid = js ''transcript update ignored; session key not found ('' @ sid @ js '')''"

definition failedMessage :: "jsstring \<Rightarrow> jsstring" where
  "failedMessage f = js ''failed to handle transcript update ('' @ f @ js '')''"

text \<open>
  What the three lookups of one notification answer, taken on the bridge as the notification
  finds it (each lookup touches its own cache only): the key cached for the file, the
  identifier cached for the file, the identifier read from the header, the identifier the
  notification works with (cached, or else read from the header), the key cached for an
  identifier, and the key the notification resolves an identifier to (cached, or else from
  the store).
\<close>

definition cachedKeyOf :: "env \<Rightarrow> bridge \<Rightarrow> jsstring \<Rightarrow> jsstring option" where
  "cachedKeyOf e b f =
     whenTruthy (fst (getCached (Date_now e GetKeyByFile) (sessionKeyByFile b) f))"

definition cachedIdOf :: "env \<Rightarrow> bridge \<Rightarrow> jsstring \<Rightarrow> jsstring option" where
  "cachedIdOf e b f =
     whenTruthy (fst (getCached (Date_now e GetIdByFile) (sessionIdByFile b) f))"

definition readId :: "env \<Rightarrow> jsstring \<Rightarrow> jsstring option completion" where
  "readId e f =
     (case readSessionIdFromTranscript e f of
        Throws \<Rightarrow> Throws
      | Returns r \<Rightarrow> Returns (whenTruthy r))"

definition identifierOf :: "env \<Rightarrow> bridge \<Rightarrow> jsstring \<Rightarrow> jsstring option completion" where
  "identifierOf e b f =
     (case cachedIdOf e b f of
        Some sid \<Rightarrow> Returns (Some sid)
      | None \<Rightarrow> readId e f)"

definition cachedKeyOfId :: "env \<Rightarrow> bridge \<Rightarrow> jsstring \<Rightarrow> jsstring option" where
  "cachedKeyOfId e b sid =
     whenTruthy (fst (getCached (Date_now e GetKeyById) (sessionKeyById b) sid))"

definition keyOf :: "env \<Rightarrow> bridge \<Rightarrow> jsstring \<Rightarrow> jsstring option completion" where
  "keyOf e b sid =
     (case cachedKeyOfId e b sid of
        Some k \<Rightarrow> Returns (Some k)
      | None \<Rightarrow>
          (case resolveSessionKeyForSessionId e sid of
             Throws \<Rightarrow> Throws
           | Returns r \<Rightarrow> Returns (whenTruthy r)))"

text \<open>The caches as the notification leaves them, and the effects of its two resolution stages.\<close>

definition keyByFileAfter :: "env \<Rightarrow> bridge \<Rightarrow> jsstring \<Rightarrow> cache" where
  "keyByFileAfter e b f = snd (getCached (Date_now e GetKeyByFile) (sessionKeyByFile b) f)"

definition idByFileAfter :: "env \<Rightarrow> bridge \<Rightarrow> jsstring \<Rightarrow> cache" where
  "idByFileAfter e b f =
     (let m = snd (getCached (Date_now e GetIdByFile) (sessionIdByFile b) f) in
      case cachedIdOf e b f of
        Some sid \<Rightarrow> m
      | None \<Rightarrow>
          (case readId e f of
             Returns (Some sid) \<Rightarrow> setCached (Date_now e SetIdByFile) m f sid
           | _ \<Rightarrow> m))"

definition keyByIdAfter :: "env \<Rightarrow> bridge \<Rightarrow> jsstring \<Rightarrow> cache" where
  "keyByIdAfter e b sid =
     (let m = snd (getCached (Date_now e GetKeyById) (sessionKeyById b) sid) in
      case cachedKeyOfId e b sid of
        Some k \<Rightarrow> m
      | None \<Rightarrow>
          (case keyOf e b sid of
             Returns (Some k) \<Rightarrow> setCached (Date_now e SetKeyById) m sid k
           | _ \<Rightarrow> m))"

definition idTrace :: "env \<Rightarrow> bridge \<Rightarrow> jsstring \<Rightarrow> effect list" where
  "idTrace e b f =
     [Lookup SessionKeyByFile f, Lookup SessionIdByFile f] @
     (case cachedIdOf e b f of Some sid \<Rightarrow> [] | None \<Rightarrow> [ReadHeader f])"

definition keyTrace :: "env \<Rightarrow> bridge \<Rightarrow> jsstring \<Rightarrow> effect list" where
  "keyTrace e b sid =
     Lookup SessionKeyById sid #
     (case cachedKeyOfId e b sid of Some k \<Rightarrow> [] | None \<Rightarrow> [ResolveKey sid])"

subsection \<open>Store candidates\<close>

text \<open>
  The identifier a store entry offers to the scan, trimmed (empty when the entry has none), and
  what it means for the entry to match a query.
\<close>

definition candidateId :: "jsstring option \<Rightarrow> jsstring" where
  "candidateId entry = (case entry of Some s \<Rightarrow> trim s | None \<Rightarrow> [])"

definition matchesQuery :: "jsstring \<Rightarrow> jsstring option \<Rightarrow> bool" where
  "matchesQuery q entry \<longleftrightarrow> candidateId entry \<noteq> [] \<and> candidateId entry = q"

subsection \<open>Cache contents\<close>

text \<open>
  The cache of a given name, and the relation between the bridge before and after some
  notifications that says: every entry now present was there before, or holds a non-empty value.
\<close>

fun cacheOf :: "cache_name \<Rightarrow> bridge \<Rightarrow> cache" where
  "cacheOf SessionKeyByFile b = sessionKeyByFile b"
| "cacheOf SessionIdByFile b = sessionIdByFile b"
| "cacheOf SessionKeyById b = sessionKeyById b"

definition noEmptyWrites :: "bridge \<Rightarrow> bridge \<Rightarrow> bool" where
  "noEmptyWrites b b' \<longleftrightarrow>
     (\<forall>c k en. cacheOf c b' k = Some en \<longrightarrow> cacheOf c b k = Some en \<or> val en \<noteq> [])"

text \<open>The effects that are a call of the header reader or of the resolver.\<close>

fun isResolution :: "effect \<Rightarrow> bool" where
  "isResolution (ReadHeader f) = True"
| "isResolution (ResolveKey sid) = True"
| "isResolution x = False"

subsection \<open>Outcomes of one notification\<close>

text \<open>
  The identifier a notification obtains but cannot resolve (no hit in the file \<open>\<rightarrow>\<close> key cache,
  an identifier from the cache or the header, and neither the identifier \<open>\<rightarrow>\<close> key cache nor
  the store gives a key for it), and whether handling the notification raises: closing the
  transcript throws, the store loader throws during key resolution, the logger throws on the
  warning about an unresolved identifier, or the sink throws on the emission.
\<close>

definition unresolvedIdOf :: "env \<Rightarrow> bridge \<Rightarrow> jsstring \<Rightarrow> jsstring option" where
  "unresolvedIdOf e b f =
     (case cachedKeyOf e b f of
        Some k \<Rightarrow> None
      | None \<Rightarrow>
          (case identifierOf e b f of
             Returns (Some sid) \<Rightarrow> if keyOf e b sid = Returns None then Some sid else None
           | _ \<Rightarrow> None))"

definition raises :: "env \<Rightarrow> bridge \<Rightarrow> jsstring \<Rightarrow> bool" where
  "raises e b f =
     (case cachedKeyOf e b f of
        Some k \<Rightarrow> broadcastThrows e
      | None \<Rightarrow>
          (case identifierOf e b f of
             Throws \<Rightarrow> True
           | Returns None \<Rightarrow> False
           | Returns (Some sid) \<Rightarrow>
               (case keyOf e b sid of
                  Throws \<Rightarrow> True
                | Returns None \<Rightarrow> has_log e \<and> logThrows e (notFoundMessage sid)
                | Returns (Some k) \<Rightarrow> broadcastThrows e)))"

subsection \<open>UUIDs\<close>

text \<open>
  The strings that \<^verbatim>\<open>randomUUID\<close> returns: 36 code units, hyphens at the positions 8, 13, 18
  and 23, lower-case hexadecimal digits elsewhere.
\<close>

definition isHexDigit :: "jschar \<Rightarrow> bool" where
  "isHexDigit c \<longleftrightarrow> (0x30 \<le> c \<and> c \<le> 0x39) \<or> (0x61 \<le> c \<and> c \<le> 0x66)"

definition isUUID :: "jsstring \<Rightarrow> bool" where
  "isUUID u \<longleftrightarrow>
     length u = 36 \<and>
     list_all (\<lambda>(i, c). if i \<in> {8, 13, 18, 23} then c = 0x2D else isHexDigit c)
       (enumerate 0 u)"

section \<open>A concrete run\<close>

text \<open>
  The scenario of the specification: the transcript \<^verbatim>\<open>a.log\<close> starts with an empty line and
  a message record, then holds the session record of \<^verbatim>\<open>sess-42\<close>; the store registers
  that session as \<^verbatim>\<open>key-alpha\<close> (with a space after the identifier), behind an entry
  whose identifier is blank. The decoder and the parser are given on the texts of
  this scenario only.
\<close>

definition asciiBytes :: "string \<Rightarrow> byte list" where
  "asciiBytes s = map (\<lambda>c. of_nat (of_char c)) s"

definition ascii :: "byte list \<Rightarrow> jsstring" where
  "ascii bs = map (\<lambda>b. of_nat (unat b)) bs"

definition demo_header :: string where
  \<open>demo_header = ''{"type":"session","id":"sess-42"}''\<close>

definition demo_note :: string where
  \<open>demo_note = ''{"type":"message","id":"m1"}''\<close>

definition demo_content :: "byte list" where
  "demo_content =
     asciiBytes ([CHR 0x0D, CHR 0x0A] @ demo_note @ [CHR 0x0A] @ demo_header @ [CHR 0x0A])"

definition demo_parse :: "jsstring \<Rightarrow> json option" where
  "demo_parse s =
     (if s = js demo_header
      then Some (JObj [js ''type'' \<mapsto> JStr (js ''session''), js ''id'' \<mapsto> JStr (js ''sess-42'')])
      else if s = js demo_note
      then Some (JObj [js ''type'' \<mapsto> JStr (js ''message''), js ''id'' \<mapsto> JStr (js ''m1'')])
      else None)"

definition demo_env :: env where
  "demo_env = \<lparr>
     fs_file = (\<lambda>p. if p = js ''a.log'' then Bytes demo_content else OpenFails),
     utf8 = ascii,
     JSON_parse = demo_parse,
     loadStore = Some [(js ''key-old'', Some (js '' '')), (js ''key-alpha'', Some (js ''sess-42 ''))],
     randomUUID = js ''123e4567-e89b-42d3-a456-426614174000'',
     Date_now = (\<lambda>_. 1000),
     broadcastThrows = False,
     has_log = True,
     closeThrows = (\<lambda>_. False),
     logThrows = (\<lambda>_. False)\<rparr>"

text \<open>
  A later notification of the scenario, one second on, and the bridge and the effects that the
  first notification for \<^verbatim>\<open>a.log\<close> leaves.
\<close>

definition demo_later :: env where
  "demo_later = demo_env\<lparr>randomUUID := js ''0b0e7a52-6f0c-4c1e-9d3a-5a1c2e4f6a7b'',
     Date_now := (\<lambda>_. 2000)\<rparr>"

definition demo_bridge :: bridge where
  "demo_bridge = \<lparr>
     sessionKeyByFile = [js ''a.log'' \<mapsto> \<lparr>val = js ''key-alpha'', ts = 1000\<rparr>],
     sessionIdByFile = [js ''a.log'' \<mapsto> \<lparr>val = js ''sess-42'', ts = 1000\<rparr>],
     sessionKeyById = [js ''sess-42'' \<mapsto> \<lparr>val = js ''key-alpha'', ts = 1000\<rparr>]\<rparr>"

definition demo_trace :: "effect list" where
  "demo_trace =
     [Lookup SessionKeyByFile (js ''a.log''), Lookup SessionIdByFile (js ''a.log''),
      ReadHeader (js ''a.log''), Lookup SessionKeyById (js ''sess-42''),
      ResolveKey (js ''sess-42''),
      Broadcast (js ''chat'')
        \<lparr>runId = js ''transcript-sess-42-123e4567-e89b-42d3-a456-426614174000'',
         sessionKey = js ''key-alpha'', state = js ''final''\<rparr>
        \<lparr>dropIfSlow = True\<rparr>]"

text \<open>
  Variants of the scenario: the session is not registered in the store; the store cannot be
  loaded.
\<close>

definition demo_unregistered :: env where
  "demo_unregistered = demo_env\<lparr>loadStore := Some []\<rparr>"

definition demo_broken :: env where
  "demo_broken = demo_env\<lparr>loadStore := None\<rparr>"

text \<open>
  Faults of the surroundings: closing the transcript throws; no logger was given; the store
  cannot be loaded and the logger throws on every message.
\<close>

definition demo_unclosed :: env where
  "demo_unclosed = demo_env\<lparr>closeThrows := (\<lambda>_. True)\<rparr>"

definition demo_silent :: env where
  "demo_silent = demo_unregistered\<lparr>has_log := False\<rparr>"

definition demo_loud :: env where
  "demo_loud = demo_broken\<lparr>logThrows := (\<lambda>_. True)\<rparr>"

text \<open>The bridge that the first notification leaves when the session is not registered.\<close>

definition demo_half :: bridge where
  "demo_half = attach\<lparr>sessionIdByFile := [js ''a.log'' \<mapsto> \<lparr>val = js ''sess-42'', ts = 1000\<rparr>]\<rparr>"

section \<open>Properties\<close>

subsection \<open>The header scan\<close>

lemma trim_eq_Nil: "trim s = [] \<longleftrightarrow> blank s"
proof -
  have A: "trim s = [] \<longleftrightarrow> dropWhile isWhiteSpace (rev (dropWhile isWhiteSpace s)) = []"
    by (simp add: trim_def)
  have B: "dropWhile isWhiteSpace (rev (dropWhile isWhiteSpace s)) = [] \<longleftrightarrow> dropWhile isWhiteSpace s = []"
  proof (cases "dropWhile isWhiteSpace s")
    case Nil
    then show ?thesis by (simp only: rev.simps(1) dropWhile.simps(1))
  next
    case (Cons c cs)
    then have "\<not> isWhiteSpace c"
      using hd_dropWhile [of isWhiteSpace s] by simp
    with Cons show ?thesis by (auto simp: dropWhile_eq_Nil_conv)
  qed
  have C: "dropWhile isWhiteSpace s = [] \<longleftrightarrow> blank s"
    by (simp add: blank_def list_all_iff dropWhile_eq_Nil_conv)
  from A B C show ?thesis by blast
qed

lemma scanLines_step:
  "scanLines parse (l # rest) =
     (if malformed parse l then None
      else (case qualifying parse l of Some i \<Rightarrow> Some i | None \<Rightarrow> scanLines parse rest))"
proof (cases "parse (trim l)")
  case None
  then show ?thesis by (simp add: malformed_def qualifying_def trim_eq_Nil)
next
  case (Some v)
  show ?thesis
  proof (cases v)
    case (JObj props)
    show ?thesis
    proof (cases "props (js ''type'')")
      case None
      with Some JObj show ?thesis
        by (simp add: malformed_def qualifying_def trim_eq_Nil sessionRecordId_def)
    next
      case kind: (Some k)
      with Some JObj show ?thesis
        by (cases k; cases "props (js ''id'')")
           (auto simp: malformed_def qualifying_def trim_eq_Nil sessionRecordId_def Let_def
                 split: json.splits option.splits)
    qed
  qed (use Some in \<open>simp_all add: malformed_def qualifying_def trim_eq_Nil sessionRecordId_def\<close>)
qed

declare scanLines.simps(2) [simp del]

lemma take_min_length: "take (min (length xs) n) xs = take n xs"
  by (simp add: min_def)

lemma scanLines_Some_iff:
  "scanLines parse ls = Some ident \<longleftrightarrow>
     (\<exists>pre line post. ls = pre @ line # post \<and>
        (\<forall>l\<in>set pre. \<not> malformed parse l \<and> qualifying parse l = None) \<and>
        qualifying parse line = Some ident)"
proof (induction ls)
  case Nil
  then show ?case by simp
next
  case (Cons l rest)
  show ?case (is "?L \<longleftrightarrow> ?R")
  proof
    assume L: ?L
    show ?R
    proof (cases "qualifying parse l")
      case None
      with L have nm: "\<not> malformed parse l" and "scanLines parse rest = Some ident"
        by (auto simp: scanLines_step split: if_splits)
      with Cons.IH obtain pre line post where
        "rest = pre @ line # post"
        "\<forall>x\<in>set pre. \<not> malformed parse x \<and> qualifying parse x = None"
        "qualifying parse line = Some ident"
        by blast
      with nm None have
        "l # rest = (l # pre) @ line # post \<and>
         (\<forall>x\<in>set (l # pre). \<not> malformed parse x \<and> qualifying parse x = None) \<and>
         qualifying parse line = Some ident"
        by simp
      then show ?thesis by blast
    next
      case (Some i)
      with L have "i = ident" by (auto simp: scanLines_step split: if_splits)
      with Some have "l # rest = [] @ l # rest \<and>
         (\<forall>x\<in>set []. \<not> malformed parse x \<and> qualifying parse x = None) \<and>
         qualifying parse l = Some ident" by simp
      then show ?thesis by blast
    qed
  next
    assume ?R
    then obtain pre line post where
      eq: "l # rest = pre @ line # post" and
      pre: "\<forall>x\<in>set pre. \<not> malformed parse x \<and> qualifying parse x = None" and
      q: "qualifying parse line = Some ident"
      by blast
    show ?L
    proof (cases pre)
      case Nil
      with eq q have "qualifying parse l = Some ident" by simp
      moreover from this have "\<not> malformed parse l"
        by (auto simp: malformed_def qualifying_def split: if_splits option.splits)
      ultimately show ?thesis by (simp add: scanLines_step)
    next
      case (Cons x pre')
      with eq have "x = l" "rest = pre' @ line # post" by simp_all
      with pre Cons q Cons.IH have "scanLines parse rest = Some ident"
        "\<not> malformed parse l" "qualifying parse l = None"
        by auto
      then show ?thesis by (simp add: scanLines_step)
    qed
  qed
qed

lemma read_Bytes:
  "fs_file e f = Bytes content \<Longrightarrow>
   readPrefix e f =
     (if content = [] then None
      else scanLines (JSON_parse e) (splitLines (utf8 e (take HEADER_READ_BYTES content))))"
proof (cases "content = []")
  case True
  then show "fs_file e f = Bytes content \<Longrightarrow> ?thesis"
    by (simp add: readPrefix_def)
next
  case False
  then have "\<not> min (length content) HEADER_READ_BYTES \<le> 0"
    by (simp add: HEADER_READ_BYTES_def min_def)
  then show "fs_file e f = Bytes content \<Longrightarrow> ?thesis"
    using False
    by (simp only: readPrefix_def Let_def take_min_length fsfile.case if_False)
qed

lemma read_eq:
  "readSessionIdFromTranscript e f =
     (if fs_file e f \<noteq> OpenFails \<and> closeThrows e f then Throws else Returns (readPrefix e f))"
  by (simp add: readSessionIdFromTranscript_def Let_def)

lemmas demo_defs = demo_env_def demo_parse_def demo_content_def demo_note_def demo_header_def
  ascii_def asciiBytes_def js_def

lemma demo_lines:
  "splitLines (utf8 demo_env (take 8192 demo_content)) = [[], js demo_note] @ js demo_header # [[]]"
  by (simp add: demo_defs)

text \<open>
  Claim C2 (header reader contract). \<^verbatim>\<open>readSessionIdFromTranscript\<close> consults the first 8192
  bytes only and cuts them into lines. It returns an identifier exactly when closing the file
  succeeds, some line is a qualifying record (it parses to an object whose \<^verbatim>\<open>type\<close> is the
  string \<^verbatim>\<open>session\<close> and whose \<^verbatim>\<open>id\<close> is a non-blank string) and every line above it is
  blank, or parses without qualifying; the identifier returned is that of this first
  qualifying line, trimmed. An exception leaves the function exactly when the file was opened
  and \<^verbatim>\<open>fs.closeSync\<close> throws on it, whatever was read. In every other case the answer is
  not-found: a non-blank line above fails to parse, no line qualifies, the file cannot be
  opened, it cannot be read, or no byte is read.
\<close>

theorem header_reader_contract:
  "(readSessionIdFromTranscript e f = Returns (Some ident) \<longleftrightarrow>
      (\<exists>content pre line post.
         fs_file e f = Bytes content \<and> content \<noteq> [] \<and> \<not> closeThrows e f \<and>
         splitLines (utf8 e (take 8192 content)) = pre @ line # post \<and>
         (\<forall>l\<in>set pre. \<not> malformed (JSON_parse e) l \<and> qualifying (JSON_parse e) l = None) \<and>
         qualifying (JSON_parse e) line = Some ident)) \<and>
   (readSessionIdFromTranscript e f = Throws \<longleftrightarrow> fs_file e f \<noteq> OpenFails \<and> closeThrows e f) \<and>
   (readSessionIdFromTranscript e f = Returns None \<longleftrightarrow>
      (fs_file e f = OpenFails \<or> \<not> closeThrows e f) \<and>
      \<not> (\<exists>content pre line post i.
         fs_file e f = Bytes content \<and> content \<noteq> [] \<and>
         splitLines (utf8 e (take 8192 content)) = pre @ line # post \<and>
         (\<forall>l\<in>set pre. \<not> malformed (JSON_parse e) l \<and> qualifying (JSON_parse e) l = None) \<and>
         qualifying (JSON_parse e) line = Some i)) \<and>
   (fs_file e f = OpenFails \<or>
    (fs_file e f = ReadFails \<or> fs_file e f = Bytes []) \<and> \<not> closeThrows e f
      \<longrightarrow> readSessionIdFromTranscript e f = Returns None)"
proof -
  have n: "HEADER_READ_BYTES = 8192" by (simp add: HEADER_READ_BYTES_def)
  have prefix: "readPrefix e f = Some i \<longleftrightarrow>
      (\<exists>content pre line post.
         fs_file e f = Bytes content \<and> content \<noteq> [] \<and>
         splitLines (utf8 e (take 8192 content)) = pre @ line # post \<and>
         (\<forall>l\<in>set pre. \<not> malformed (JSON_parse e) l \<and> qualifying (JSON_parse e) l = None) \<and>
         qualifying (JSON_parse e) line = Some i)" for i
  proof (cases "fs_file e f")
    case (Bytes content)
    with read_Bytes [OF Bytes] n show ?thesis
      by (cases "content = []") (simp_all add: scanLines_Some_iff)
  qed (simp_all add: readPrefix_def)
  have a: "readSessionIdFromTranscript e f = Returns (Some ident) \<longleftrightarrow>
      (\<exists>content pre line post.
         fs_file e f = Bytes content \<and> content \<noteq> [] \<and> \<not> closeThrows e f \<and>
         splitLines (utf8 e (take 8192 content)) = pre @ line # post \<and>
         (\<forall>l\<in>set pre. \<not> malformed (JSON_parse e) l \<and> qualifying (JSON_parse e) l = None) \<and>
         qualifying (JSON_parse e) line = Some ident)"
    unfolding read_eq by (cases "closeThrows e f") (auto simp: prefix)
  have b: "readSessionIdFromTranscript e f = Throws \<longleftrightarrow> fs_file e f \<noteq> OpenFails \<and> closeThrows e f"
    by (simp add: read_eq)
  have c: "readSessionIdFromTranscript e f = Returns None \<longleftrightarrow>
      (fs_file e f = OpenFails \<or> \<not> closeThrows e f) \<and>
      \<not> (\<exists>content pre line post i.
         fs_file e f = Bytes content \<and> content \<noteq> [] \<and>
         splitLines (utf8 e (take 8192 content)) = pre @ line # post \<and>
         (\<forall>l\<in>set pre. \<not> malformed (JSON_parse e) l \<and> qualifying (JSON_parse e) l = None) \<and>
         qualifying (JSON_parse e) line = Some i)"
  proof -
    have "readPrefix e f = None \<longleftrightarrow> (\<forall>i. readPrefix e f \<noteq> Some i)" by auto
    also have "\<dots> \<longleftrightarrow> \<not> (\<exists>content pre line post i.
         fs_file e f = Bytes content \<and> content \<noteq> [] \<and>
         splitLines (utf8 e (take 8192 content)) = pre @ line # post \<and>
         (\<forall>l\<in>set pre. \<not> malformed (JSON_parse e) l \<and> qualifying (JSON_parse e) l = None) \<and>
         qualifying (JSON_parse e) line = Some i)"
      unfolding prefix by blast
    finally show ?thesis
      unfolding read_eq by auto
  qed
  have d: "fs_file e f = OpenFails \<or>
    (fs_file e f = ReadFails \<or> fs_file e f = Bytes []) \<and> \<not> closeThrows e f
      \<longrightarrow> readSessionIdFromTranscript e f = Returns None"
    by (auto simp: read_eq readPrefix_def)
  from a b c d show ?thesis by (intro conjI)
qed

theorem header_reader_contract_witness:
  "readSessionIdFromTranscript demo_env (js ''a.log'') = Returns (Some (js ''sess-42'')) \<and>
   fs_file demo_unclosed (js ''b.log'') = OpenFails \<and>
   readSessionIdFromTranscript demo_unclosed (js ''b.log'') = Returns None"
proof -
  have "\<exists>content pre line post.
         fs_file demo_env (js ''a.log'') = Bytes content \<and> content \<noteq> [] \<and>
         \<not> closeThrows demo_env (js ''a.log'') \<and>
         splitLines (utf8 demo_env (take 8192 content)) = pre @ line # post \<and>
         (\<forall>l\<in>set pre. \<not> malformed (JSON_parse demo_env) l \<and>
            qualifying (JSON_parse demo_env) l = None) \<and>
         qualifying (JSON_parse demo_env) line = Some (js ''sess-42'')"
    apply (rule exI [of _ demo_content])
    apply (rule exI [of _ "[[], js demo_note]"])
    apply (rule exI [of _ "js demo_header"])
    apply (rule exI [of _ "[[]]"])
    apply (simp only: demo_lines)
    apply (simp add: demo_defs malformed_def qualifying_def blank_def sessionRecordId_def
        trim_def isWhiteSpace_def)
    done
  moreover have "fs_file demo_unclosed (js ''b.log'') = OpenFails"
    by (simp add: demo_unclosed_def demo_defs)
  ultimately show ?thesis
    using header_reader_contract [of demo_env "js ''a.log''" "js ''sess-42''"]
      header_reader_contract [of demo_unclosed "js ''b.log''"]
    by blast
qed

text \<open>
  The transcript of the scenario holds a qualifying record, but closing it throws: the reader
  neither returns the identifier nor not-found.
\<close>

theorem header_reader_close_counterexample:
  "fs_file demo_unclosed (js ''a.log'') = Bytes demo_content \<and>
   readSessionIdFromTranscript demo_env (js ''a.log'') = Returns (Some (js ''sess-42'')) \<and>
   readSessionIdFromTranscript demo_unclosed (js ''a.log'') = Throws"
proof -
  have "readPrefix demo_env (js ''a.log'') = Some (js ''sess-42'')"
    by (simp add: readPrefix_def HEADER_READ_BYTES_def demo_defs scanLines.simps trim_def
        isWhiteSpace_def)
  then show ?thesis
    by (simp add: read_eq demo_unclosed_def demo_env_def)
qed

subsection \<open>The paths of one notification\<close>

lemma payloads_append: "payloads (xs @ ys) = payloads xs @ payloads ys"
  by (induction xs rule: payloads.induct) simp_all

lemma warnings_append: "warnings (xs @ ys) = warnings xs @ warnings ys"
  by (induction xs rule: warnings.induct) simp_all

lemma publish_eq:
  "publish e b f sid k =
     (thrown e,
      b\<lparr>sessionKeyByFile := setCached (Date_now e SetKeyByFile) (sessionKeyByFile b) f k\<rparr>,
      [chatEvent (js ''transcript-'' @ sid @ js ''-'' @ randomUUID e) k])"
  by (simp add: publish_def broadcast_def chatEvent_def thrown_def)

lemma warn_eq: "warn e b msg = (logOutcome e msg, b, logged e msg)"
  by (simp add: warn_def logOutcome_def logged_def)

lemma resolveKey_elim:
  assumes "resolveKey e b f sid = (out, b', tr)"
  obtains
    (cached) k where
      "whenTruthy (fst (getCached (Date_now e GetKeyById) (sessionKeyById b) sid)) = Some k"
      "out = thrown e"
      "b' = b\<lparr>sessionKeyById := snd (getCached (Date_now e GetKeyById) (sessionKeyById b) sid),
              sessionKeyByFile := setCached (Date_now e SetKeyByFile) (sessionKeyByFile b) f k\<rparr>"
      "tr = [Lookup SessionKeyById sid,
             chatEvent (js ''transcript-'' @ sid @ js ''-'' @ randomUUID e) k]"
  | (throws)
      "whenTruthy (fst (getCached (Date_now e GetKeyById) (sessionKeyById b) sid)) = None"
      "resolveSessionKeyForSessionId e sid = Throws"
      "out = Threw"
      "b' = b\<lparr>sessionKeyById := snd (getCached (Date_now e GetKeyById) (sessionKeyById b) sid)\<rparr>"
      "tr = [Lookup SessionKeyById sid, ResolveKey sid]"
  | (notFound) r where
      "whenTruthy (fst (getCached (Date_now e GetKeyById) (sessionKeyById b) sid)) = None"
      "resolveSessionKeyForSessionId e sid = Returns r" "whenTruthy r = None"
      "out = logOutcome e (notFoundMessage sid)"
      "b' = b\<lparr>sessionKeyById := snd (getCached (Date_now e GetKeyById) (sessionKeyById b) sid)\<rparr>"
      "tr = [Lookup SessionKeyById sid, ResolveKey sid] @ logged e (notFoundMessage sid)"
  | (resolved) r k where
      "whenTruthy (fst (getCached (Date_now e GetKeyById) (sessionKeyById b) sid)) = None"
      "resolveSessionKeyForSessionId e sid = Returns r" "whenTruthy r = Some k"
      "out = thrown e"
      "b' = b\<lparr>sessionKeyById :=
                setCached (Date_now e SetKeyById)
                  (snd (getCached (Date_now e GetKeyById) (sessionKeyById b) sid)) sid k,
              sessionKeyByFile := setCached (Date_now e SetKeyByFile) (sessionKeyByFile b) f k\<rparr>"
      "tr = [Lookup SessionKeyById sid, ResolveKey sid,
             chatEvent (js ''transcript-'' @ sid @ js ''-'' @ randomUUID e) k]"
proof (cases "whenTruthy (fst (getCached (Date_now e GetKeyById) (sessionKeyById b) sid))")
  case (Some k)
  with assms show thesis
    by (intro cached [of k]) (auto simp: resolveKey_def publish_eq after_def case_prod_beta)
next
  case None
  show thesis
  proof (cases "resolveSessionKeyForSessionId e sid")
    case Throws
    with None assms show thesis
      by (intro throws) (auto simp: resolveKey_def after_def case_prod_beta)
  next
    case (Returns r)
    show thesis
    proof (cases "whenTruthy r")
      case rNone: None
      with None Returns assms show thesis
        by (intro notFound [of r])
           (auto simp: resolveKey_def after_def case_prod_beta notFoundMessage_def warn_eq)
    next
      case (Some k)
      with None Returns assms show thesis
        by (intro resolved [of r k])
           (auto simp: resolveKey_def after_def case_prod_beta publish_eq)
    qed
  qed
qed

lemma resolveKey_cases:
  assumes "resolveKey e b f sid = (out, b', tr)"
  obtains
    (throws)
      "keyOf e b sid = Throws" "out = Threw"
      "b' = b\<lparr>sessionKeyById := keyByIdAfter e b sid\<rparr>"
      "tr = keyTrace e b sid"
  | (notFound)
      "keyOf e b sid = Returns None" "out = logOutcome e (notFoundMessage sid)"
      "b' = b\<lparr>sessionKeyById := keyByIdAfter e b sid\<rparr>"
      "tr = keyTrace e b sid @ logged e (notFoundMessage sid)"
  | (emitted) k where
      "keyOf e b sid = Returns (Some k)" "out = thrown e"
      "b' = b\<lparr>sessionKeyById := keyByIdAfter e b sid,
              sessionKeyByFile := setCached (Date_now e SetKeyByFile) (sessionKeyByFile b) f k\<rparr>"
      "tr = keyTrace e b sid @ [chatEvent (js ''transcript-'' @ sid @ js ''-'' @ randomUUID e) k]"
  using assms
proof (cases rule: resolveKey_elim)
  case (cached k)
  then show ?thesis
    by (intro emitted [of k]) (simp_all add: keyOf_def cachedKeyOfId_def keyByIdAfter_def keyTrace_def)
next
  case throws
  then show ?thesis
    by (intro that(1)) (simp_all add: keyOf_def cachedKeyOfId_def keyByIdAfter_def keyTrace_def)
next
  case (notFound r)
  then show ?thesis
    by (intro that(2)) (simp_all add: keyOf_def cachedKeyOfId_def keyByIdAfter_def keyTrace_def)
next
  case (resolved r k)
  then show ?thesis
    by (intro emitted [of k]) (simp_all add: keyOf_def cachedKeyOfId_def keyByIdAfter_def keyTrace_def)
qed

lemma resolveId_eq:
  "resolveId e b f =
     (case identifierOf e b f of
        Throws \<Rightarrow> (Threw, b\<lparr>sessionIdByFile := idByFileAfter e b f\<rparr>, tl (idTrace e b f))
      | Returns None \<Rightarrow>
          (Returned, b\<lparr>sessionIdByFile := idByFileAfter e b f\<rparr>, tl (idTrace e b f))
      | Returns (Some sid) \<Rightarrow>
          after (tl (idTrace e b f))
            (resolveKey e (b\<lparr>sessionIdByFile := idByFileAfter e b f\<rparr>) f sid))"
proof (cases "cachedIdOf e b f")
  case None
  show ?thesis
  proof (cases "readSessionIdFromTranscript e f")
    case Throws
    with None show ?thesis
      by (simp add: resolveId_def identifierOf_def readId_def idByFileAfter_def idTrace_def
          after_def case_prod_beta cachedIdOf_def Let_def)
  next
    case (Returns r)
    with None show ?thesis
      by (cases "whenTruthy r")
         (simp_all add: resolveId_def identifierOf_def readId_def idByFileAfter_def idTrace_def
            after_def case_prod_beta cachedIdOf_def Let_def)
  qed
next
  case (Some sid)
  then show ?thesis
    by (simp add: resolveId_def identifierOf_def idByFileAfter_def idTrace_def after_def
          case_prod_beta cachedIdOf_def Let_def)
qed

lemma handleUpdate_eq:
  "handleUpdate e b f =
     (case cachedKeyOf e b f of
        Some k \<Rightarrow>
          (thrown e, b\<lparr>sessionKeyByFile := keyByFileAfter e b f\<rparr>,
           [Lookup SessionKeyByFile f, chatEvent (js ''transcript-'' @ randomUUID e) k])
      | None \<Rightarrow>
          after [Lookup SessionKeyByFile f]
            (resolveId e (b\<lparr>sessionKeyByFile := keyByFileAfter e b f\<rparr>) f))"
  by (cases "cachedKeyOf e b f")
     (simp_all add: handleUpdate_def cachedKeyOf_def keyByFileAfter_def after_def case_prod_beta
        broadcast_def chatEvent_def thrown_def Let_def)

lemma handleUpdate_cases:
  assumes "handleUpdate e b f = (out, b', tr)"
  obtains
    (fast) k where
      "cachedKeyOf e b f = Some k" "out = thrown e"
      "b' = b\<lparr>sessionKeyByFile := keyByFileAfter e b f\<rparr>"
      "tr = [Lookup SessionKeyByFile f, chatEvent (js ''transcript-'' @ randomUUID e) k]"
  | (noId)
      "cachedKeyOf e b f = None" "identifierOf e b f = Returns None" "out = Returned"
      "b' = b\<lparr>sessionKeyByFile := keyByFileAfter e b f, sessionIdByFile := idByFileAfter e b f\<rparr>"
      "tr = idTrace e b f"
  | (unread)
      "cachedKeyOf e b f = None" "identifierOf e b f = Throws" "out = Threw"
      "b' = b\<lparr>sessionKeyByFile := keyByFileAfter e b f, sessionIdByFile := idByFileAfter e b f\<rparr>"
      "tr = idTrace e b f"
  | (throws) sid where
      "cachedKeyOf e b f = None" "identifierOf e b f = Returns (Some sid)"
      "keyOf e b sid = Throws" "out = Threw"
      "b' = b\<lparr>sessionKeyByFile := keyByFileAfter e b f, sessionIdByFile := idByFileAfter e b f,
              sessionKeyById := keyByIdAfter e b sid\<rparr>"
      "tr = idTrace e b f @ keyTrace e b sid"
  | (notFound) sid where
      "cachedKeyOf e b f = None" "identifierOf e b f = Returns (Some sid)"
      "keyOf e b sid = Returns None" "out = logOutcome e (notFoundMessage sid)"
      "b' = b\<lparr>sessionKeyByFile := keyByFileAfter e b f, sessionIdByFile := idByFileAfter e b f,
              sessionKeyById := keyByIdAfter e b sid\<rparr>"
      "tr = idTrace e b f @ keyTrace e b sid @ logged e (notFoundMessage sid)"
  | (emitted) sid k where
      "cachedKeyOf e b f = None" "identifierOf e b f = Returns (Some sid)"
      "keyOf e b sid = Returns (Some k)" "out = thrown e"
      "b' = b\<lparr>sessionKeyByFile := setCached (Date_now e SetKeyByFile) (keyByFileAfter e b f) f k,
              sessionIdByFile := idByFileAfter e b f,
              sessionKeyById := keyByIdAfter e b sid\<rparr>"
      "tr = idTrace e b f @ keyTrace e b sid @
            [chatEvent (js ''transcript-'' @ sid @ js ''-'' @ randomUUID e) k]"
proof (cases "cachedKeyOf e b f")
  case (Some k)
  with assms show thesis
    by (intro fast [of k]) (simp_all add: handleUpdate_eq)
next
  case None
  define b1 where "b1 = b\<lparr>sessionKeyByFile := keyByFileAfter e b f\<rparr>"
  have id1: "identifierOf e b1 f = identifierOf e b f"
    and c1: "cachedIdOf e b1 f = cachedIdOf e b f"
    and tr1: "idTrace e b f = Lookup SessionKeyByFile f # tl (idTrace e b1 f)"
    by (simp_all add: b1_def identifierOf_def cachedIdOf_def idTrace_def)
  have after1: "idByFileAfter e b1 f = idByFileAfter e b f"
    unfolding idByFileAfter_def c1 by (simp add: b1_def)
  from assms None have h: "after [Lookup SessionKeyByFile f] (resolveId e b1 f) = (out, b', tr)"
    by (simp add: handleUpdate_eq b1_def)
  show thesis
  proof (cases "identifierOf e b f")
    case Throws
    with h id1 after1 tr1 None show thesis
      by (intro unread) (auto simp: resolveId_eq after_def b1_def)
  next
    case (Returns r)
    show thesis
    proof (cases r)
      case idNone: None
      with h id1 after1 tr1 None Returns show thesis
        by (intro noId) (auto simp: resolveId_eq after_def b1_def)
    next
      case (Some sid)
      define b2 where "b2 = b1\<lparr>sessionIdByFile := idByFileAfter e b1 f\<rparr>"
      have k2a: "keyOf e b2 sid = keyOf e b sid" and k2c: "keyTrace e b2 sid = keyTrace e b sid"
        by (simp_all add: b2_def b1_def keyOf_def cachedKeyOfId_def keyTrace_def)
      have k2b: "keyByIdAfter e b2 sid = keyByIdAfter e b sid"
        unfolding keyByIdAfter_def k2a cachedKeyOfId_def by (simp add: b2_def b1_def)
      note k2 = k2a k2b k2c
      note ident = Returns [unfolded Some]
      obtain out2 b2' tr2 where rk: "resolveKey e b2 f sid = (out2, b2', tr2)"
        by (cases "resolveKey e b2 f sid") auto
      with h id1 tr1 ident have res: "out = out2" "b' = b2'" "tr = idTrace e b f @ tr2"
        by (auto simp: resolveId_eq after_def b2_def [symmetric])
      from rk show thesis
      proof (cases rule: resolveKey_cases)
        case throws
        with res k2 None ident after1 show ?thesis
          by (intro that(4) [of sid]) (simp_all add: b2_def b1_def)
      next
        case notFound
        with res k2 None ident after1 show ?thesis
          by (intro that(5) [of sid]) (simp_all add: b2_def b1_def)
      next
        case (emitted k)
        with res k2 None ident after1 show ?thesis
          by (intro that(6) [of sid k]) (simp_all add: b2_def b1_def)
      qed
    qed
  qed
qed

subsection \<open>Cache expiry\<close>

text \<open>
  Claim C3 (cache TTL expiry), as the code has it. The TTL is 10 minutes, the same constant for
  the three caches, which all go through \<^verbatim>\<open>getCached\<close>. For an entry with value \<open>v\<close> and
  timestamp \<open>T\<close>, which is what \<^verbatim>\<open>setCached\<close> at time \<open>T\<close> inserts, a lookup at a time later than \<open>T + TTL\<close> answers absent and deletes the
  entry on that same lookup; a lookup at a time up to and including \<open>T + TTL\<close> answers \<open>v\<close>
  and leaves the map as it is.
\<close>

theorem getCached_expiry:
  "m k = Some \<lparr>val = v, ts = T\<rparr> \<Longrightarrow>
     CACHE_TTL_MS = 10 * 60 * 1000 \<and>
     setCached T m0 k v k = Some \<lparr>val = v, ts = T\<rparr> \<and>
     (now > T + CACHE_TTL_MS \<longrightarrow> getCached now m k = (None, m(k := None))) \<and>
     (now \<le> T + CACHE_TTL_MS \<longrightarrow> getCached now m k = (Some v, m))"
  by (auto simp: getCached_def setCached_def CACHE_TTL_MS_def)

theorem getCached_expiry_witness:
  "getCached 601001 (setCached 1000 Map.empty (js ''a.log'') (js ''key-alpha'')) (js ''a.log'')
     = (None, Map.empty) \<and>
   getCached 601000 (setCached 1000 Map.empty (js ''a.log'') (js ''key-alpha'')) (js ''a.log'')
     = (Some (js ''key-alpha''), setCached 1000 Map.empty (js ''a.log'') (js ''key-alpha''))"
  using
    getCached_expiry [where m = "setCached 1000 Map.empty (js ''a.log'') (js ''key-alpha'')"
      and k = "js ''a.log''" and v = "js ''key-alpha''" and T = 1000 and ?m0.0 = Map.empty
      and now = 601001]
    getCached_expiry [where m = "setCached 1000 Map.empty (js ''a.log'') (js ''key-alpha'')"
      and k = "js ''a.log''" and v = "js ''key-alpha''" and T = 1000 and ?m0.0 = Map.empty
      and now = 601000]
  by (simp add: setCached_def)

text \<open>
  At exactly \<open>T + TTL\<close> the entry is still served and still present: the test of the source
  is \<^verbatim>\<open>Date.now() - entry.ts > CACHE_TTL_MS\<close>.
\<close>

theorem getCached_at_ttl_counterexample:
  "fst (getCached (1000 + CACHE_TTL_MS)
          (setCached 1000 Map.empty (js ''a.log'') (js ''key-alpha'')) (js ''a.log''))
     = Some (js ''key-alpha'') \<and>
   snd (getCached (1000 + CACHE_TTL_MS)
          (setCached 1000 Map.empty (js ''a.log'') (js ''key-alpha'')) (js ''a.log'')) (js ''a.log'')
     \<noteq> None"
  by (simp add: getCached_def setCached_def)

subsection \<open>The store scan\<close>

lemma scanStore_step:
  "scanStore ((k, entry) # rest) q = (if matchesQuery q entry then Some k else scanStore rest q)"
  by (simp add: matchesQuery_def candidateId_def)

declare scanStore.simps(2) [simp del]






subsection \<open>What the lookups leave behind\<close>

lemma whenTruthy_Some: "whenTruthy x = Some v \<longleftrightarrow> x = Some v \<and> v \<noteq> []"
  by (cases x) auto

lemma whenTruthy_None: "whenTruthy x = None \<longleftrightarrow> x = None \<or> x = Some []"
  by (cases x) auto

lemma getCached_Some:
  "fst (getCached now m k) = Some v \<longleftrightarrow>
     (\<exists>en. m k = Some en \<and> val en = v \<and> now - ts en \<le> CACHE_TTL_MS)"
  by (auto simp: getCached_def split: option.splits)

lemma getCached_snd:
  "snd (getCached now m k) = m \<or> snd (getCached now m k) = m(k := None)"
  by (simp add: getCached_def split: option.splits)

lemma getCached_snd_hit:
  "fst (getCached now m k) = Some v \<Longrightarrow> snd (getCached now m k) = m"
  by (auto simp: getCached_def split: option.splits if_splits)

lemma getCached_snd_le: "snd (getCached now m k) \<subseteq>\<^sub>m m"
  using getCached_snd [of now m k] by (auto simp: map_le_def split: if_splits)

lemma getCached_again:
  "whenTruthy (fst (getCached now m k)) = None \<Longrightarrow>
   whenTruthy (fst (getCached now' (snd (getCached now m k)) k)) = None"
  by (auto simp: getCached_def whenTruthy_None split: option.splits if_splits)

lemma cachedKeyOf_Some:
  "cachedKeyOf e b f = Some k \<longleftrightarrow>
     k \<noteq> [] \<and> (\<exists>en. sessionKeyByFile b f = Some en \<and> val en = k \<and>
        Date_now e GetKeyByFile - ts en \<le> CACHE_TTL_MS)"
  by (auto simp: cachedKeyOf_def whenTruthy_Some getCached_Some)

lemma keyByFileAfter_hit: "cachedKeyOf e b f = Some k \<Longrightarrow> keyByFileAfter e b f = sessionKeyByFile b"
  by (simp add: cachedKeyOf_def keyByFileAfter_def whenTruthy_Some getCached_snd_hit)

lemma readId_nonempty: "readId e f = Returns (Some sid) \<Longrightarrow> sid \<noteq> []"
  by (auto simp: readId_def whenTruthy_Some split: completion.splits)

lemma identifierOf_nonempty: "identifierOf e b f = Returns (Some sid) \<Longrightarrow> sid \<noteq> []"
  by (auto simp: identifierOf_def cachedIdOf_def whenTruthy_Some
      dest: readId_nonempty split: option.splits)

lemma keyOf_nonempty: "keyOf e b sid = Returns (Some k) \<Longrightarrow> k \<noteq> []"
  by (auto simp: keyOf_def cachedKeyOfId_def whenTruthy_Some split: option.splits completion.splits)

lemma keyByFileAfter_le: "keyByFileAfter e b f \<subseteq>\<^sub>m sessionKeyByFile b"
  by (simp add: keyByFileAfter_def getCached_snd_le)

lemma idByFileAfter_entry:
  assumes "idByFileAfter e b f k = Some en"
  shows "sessionIdByFile b k = Some en \<or>
     (k = f \<and> cachedIdOf e b f = None \<and>
      readId e f = Returns (Some (val en)) \<and> ts en = Date_now e SetIdByFile)"
proof -
  have le: "snd (getCached (Date_now e GetIdByFile) (sessionIdByFile b) f) k = Some en
      \<Longrightarrow> sessionIdByFile b k = Some en"
    using getCached_snd_le [of "Date_now e GetIdByFile" "sessionIdByFile b" f]
    by (auto simp: map_le_def dom_def)
  from assms show ?thesis
    by (auto simp: idByFileAfter_def Let_def setCached_def dest: le
        split: option.splits if_splits completion.splits)
qed

lemma keyByIdAfter_entry:
  assumes "keyByIdAfter e b sid k = Some en"
  shows "sessionKeyById b k = Some en \<or>
     (k = sid \<and> cachedKeyOfId e b sid = None \<and>
      keyOf e b sid = Returns (Some (val en)) \<and> ts en = Date_now e SetKeyById)"
proof -
  have le: "snd (getCached (Date_now e GetKeyById) (sessionKeyById b) sid) k = Some en
      \<Longrightarrow> sessionKeyById b k = Some en"
    using getCached_snd_le [of "Date_now e GetKeyById" "sessionKeyById b" sid]
    by (auto simp: map_le_def dom_def)
  from assms show ?thesis
    by (auto simp: keyByIdAfter_def Let_def setCached_def dest: le
        split: option.splits if_splits completion.splits)
qed

lemma keyByFileAfter_entry:
  "keyByFileAfter e b f k = Some en \<Longrightarrow> sessionKeyByFile b k = Some en"
  using keyByFileAfter_le [of e b f] by (auto simp: map_le_def dom_def)

lemma handleUpdate_noEmptyWrites:
  assumes "handleUpdate e b f = (out, b', tr)"
  shows "noEmptyWrites b b'"
proof -
  have "cacheOf c b k = Some en \<or> val en \<noteq> []" if "cacheOf c b' k = Some en" for c k en
    using assms
  proof (cases rule: handleUpdate_cases)
    case (fast k0)
    with that show ?thesis
      by (cases c) (auto dest: keyByFileAfter_entry)
  next
    case noId
    with that show ?thesis
      by (cases c) (auto dest: keyByFileAfter_entry idByFileAfter_entry simp: identifierOf_def)
  next
    case unread
    with that show ?thesis
      by (cases c) (auto dest: keyByFileAfter_entry idByFileAfter_entry simp: identifierOf_def)
  next
    case (throws sid)
    with that show ?thesis
      by (cases c)
         (auto dest!: keyByFileAfter_entry idByFileAfter_entry keyByIdAfter_entry
               dest: readId_nonempty)
  next
    case (notFound sid)
    with that show ?thesis
      by (cases c)
         (auto dest!: keyByFileAfter_entry idByFileAfter_entry keyByIdAfter_entry
               dest: readId_nonempty)
  next
    case (emitted sid k0)
    from emitted(3) have "k0 \<noteq> []" by (rule keyOf_nonempty)
    with emitted that show ?thesis
      by (cases c)
         (auto dest!: keyByFileAfter_entry idByFileAfter_entry keyByIdAfter_entry keyOf_nonempty
               dest: readId_nonempty simp: setCached_def split: if_splits)
  qed
  then show ?thesis by (simp add: noEmptyWrites_def)
qed

subsection \<open>The callback and runs of notifications\<close>

lemma noEmptyWrites_refl: "noEmptyWrites b b"
  by (simp add: noEmptyWrites_def)

lemma noEmptyWrites_trans: "noEmptyWrites a b \<Longrightarrow> noEmptyWrites b c \<Longrightarrow> noEmptyWrites a c"
  unfolding noEmptyWrites_def by blast

lemma payloads_logged: "payloads (logged e msg) = []"
  by (simp add: logged_def)

lemma onUpdate_None:
  "whenTruthy (map_option trim u) = None \<Longrightarrow> onUpdate e b u = (Returned, b, [])"
  by (simp add: onUpdate_def)

lemma onUpdate_Some:
  "whenTruthy (map_option trim u) = Some f \<Longrightarrow> handleUpdate e b f = (out, b', tr) \<Longrightarrow>
   onUpdate e b u =
     (if out = Threw then logOutcome e (failedMessage f) else Returned, b',
      tr @ (if out = Threw then logged e (failedMessage f) else []))"
  by (cases out) (simp_all add: onUpdate_def failedMessage_def warn_eq after_def)

lemma onUpdate_cases:
  obtains
    (dropped) "whenTruthy (map_option trim u) = None" "onUpdate e b u = (Returned, b, [])"
  | (handled) f out b' tr where
      "whenTruthy (map_option trim u) = Some f" "handleUpdate e b f = (out, b', tr)"
      "onUpdate e b u =
         (if out = Threw then logOutcome e (failedMessage f) else Returned, b',
          tr @ (if out = Threw then logged e (failedMessage f) else []))"
proof (cases "whenTruthy (map_option trim u)")
  case None
  then show ?thesis by (intro dropped) (simp_all add: onUpdate_None)
next
  case (Some f)
  obtain out b' tr where h: "handleUpdate e b f = (out, b', tr)"
    by (cases "handleUpdate e b f") auto
  with Some show ?thesis by (intro handled [of f out b' tr]) (simp_all add: onUpdate_Some)
qed

lemma onUpdate_noEmptyWrites: "noEmptyWrites b (fst (snd (onUpdate e b u)))"
proof (cases rule: onUpdate_cases [where u = u and e = e and b = b])
  case dropped
  then show ?thesis by (simp add: noEmptyWrites_refl)
next
  case (handled f out b' tr)
  then show ?thesis using handleUpdate_noEmptyWrites [of e b f out b' tr] by simp
qed

lemma run_Cons:
  "run b ((e, u) # rest) =
     (fst (run (fst (snd (onUpdate e b u))) rest),
      snd (snd (onUpdate e b u)) @ snd (run (fst (snd (onUpdate e b u))) rest))"
  by (simp add: case_prod_beta)

declare run.simps(2) [simp del]

lemma run_noEmptyWrites: "noEmptyWrites b (fst (run b steps))"
proof (induction steps arbitrary: b)
  case Nil
  then show ?case by (simp add: noEmptyWrites_refl)
next
  case (Cons s steps)
  obtain e u where s: "s = (e, u)" by (cases s)
  show ?case
    unfolding s run_Cons fst_conv
    using onUpdate_noEmptyWrites [of b e u] Cons.IH [of "fst (snd (onUpdate e b u))"]
    by (rule noEmptyWrites_trans)
qed

lemma attach_reachable_nonempty:
  assumes "run attach steps = (b, tr)" "cacheOf c b k = Some en"
  shows "val en \<noteq> []"
proof -
  have "noEmptyWrites attach b" using run_noEmptyWrites [of attach steps] assms(1) by simp
  moreover have "cacheOf c attach k = None" by (cases c) (simp_all add: attach_def)
  ultimately have "cacheOf c attach k = Some en \<or> val en \<noteq> []" "cacheOf c attach k = None"
    using assms(2) unfolding noEmptyWrites_def by blast+
  then show ?thesis by simp
qed

lemma handleUpdate_payload_key:
  assumes "handleUpdate e b f = (out, b', tr)" "p \<in> set (payloads tr)"
  shows "sessionKey p \<noteq> []"
  using assms(1)
proof (cases rule: handleUpdate_cases)
  case (fast k)
  with assms(2) show ?thesis by (simp add: chatEvent_def cachedKeyOf_Some)
next
  case noId
  with assms(2) show ?thesis
    by (simp add: idTrace_def payloads_append split: option.splits)
next
  case unread
  with assms(2) show ?thesis
    by (simp add: idTrace_def payloads_append split: option.splits)
next
  case (throws sid)
  with assms(2) show ?thesis
    by (simp add: idTrace_def keyTrace_def payloads_append split: option.splits)
next
  case (notFound sid)
  with assms(2) show ?thesis
    by (simp add: idTrace_def keyTrace_def payloads_append payloads_logged split: option.splits)
next
  case (emitted sid k)
  from emitted(3) have "k \<noteq> []" by (rule keyOf_nonempty)
  with emitted assms(2) show ?thesis
    by (simp add: idTrace_def keyTrace_def payloads_append chatEvent_def split: option.splits)
qed

subsection \<open>The fast path\<close>

lemmas model_defs = handleUpdate_def resolveId_def resolveKey_def publish_def broadcast_def
  after_def warn_def getCached_def setCached_def resolveSessionKeyForSessionId_def
  readSessionIdFromTranscript_def readPrefix_def HEADER_READ_BYTES_def CACHE_TTL_MS_def
  onUpdate_def
  scanLines.simps scanStore.simps run.simps trim_def isWhiteSpace_def attach_def

lemma demo_first:
  "handleUpdate demo_env attach (js ''a.log'') = (Returned, demo_bridge, demo_trace)"
  by (simp add: model_defs demo_defs demo_bridge_def demo_trace_def)

lemma demo_first_run:
  "run attach [(demo_env, Some (js '' a.log''))] = (demo_bridge, demo_trace)"
proof -
  have "whenTruthy (map_option trim (Some (js '' a.log''))) = Some (js ''a.log'')"
    by (simp add: trim_def isWhiteSpace_def js_def)
  from onUpdate_Some [OF this demo_first] show ?thesis
    by (simp add: run_Cons)
qed

text \<open>
  Claim C1 (idempotent fast path). Take a bridge reached from attachment by any notifications
  whose file \<open>\<rightarrow>\<close> session key cache holds an entry for the file, and a clock reading at the
  lookup that is within the TTL of that entry. Then \<^verbatim>\<open>handleUpdate\<close> for the file does exactly
  this: one lookup in that cache and one broadcast that carries the cached session key. The
  header reader and the resolver are not called, the bridge is left as it was, and nothing
  follows the emission. Hence any number of later notifications for that file within the TTL
  leave the bridge unchanged, call neither reader nor resolver, and emit the cached key each.
\<close>

theorem fast_path_idempotent:
  assumes "run attach steps = (b, tr0)"
    and "sessionKeyByFile b f = Some en"
    and "Date_now e GetKeyByFile - ts en \<le> CACHE_TTL_MS"
  shows "handleUpdate e b f =
           (if broadcastThrows e then Threw else Returned, b,
            [Lookup SessionKeyByFile f,
             Broadcast (js ''chat'')
               \<lparr>runId = js ''transcript-'' @ randomUUID e, sessionKey = val en,
                state = js ''final''\<rparr>
               \<lparr>dropIfSlow = True\<rparr>]) \<and>
         (f \<noteq> [] \<and>
          (\<forall>s\<in>set later. map_option trim (snd s) = Some f \<and>
             Date_now (fst s) GetKeyByFile - ts en \<le> CACHE_TTL_MS) \<longrightarrow>
            fst (run b later) = b \<and>
            (\<forall>x\<in>set (snd (run b later)). \<not> isResolution x) \<and>
            map sessionKey (payloads (snd (run b later))) = replicate (length later) (val en))"
proof -
  have ne: "val en \<noteq> []"
    using attach_reachable_nonempty [OF assms(1), of SessionKeyByFile f en] assms(2) by simp
  have one: "handleUpdate e' b f =
           (thrown e', b,
            [Lookup SessionKeyByFile f, chatEvent (js ''transcript-'' @ randomUUID e') (val en)])"
    if "Date_now e' GetKeyByFile - ts en \<le> CACHE_TTL_MS" for e'
  proof -
    from that assms(2) ne have hit: "cachedKeyOf e' b f = Some (val en)"
      by (simp add: cachedKeyOf_Some)
    then show ?thesis
      by (simp add: handleUpdate_eq keyByFileAfter_hit)
  qed
  have many: "fst (run b later) = b \<and>
            (\<forall>x\<in>set (snd (run b later)). \<not> isResolution x) \<and>
            map sessionKey (payloads (snd (run b later))) = replicate (length later) (val en)"
    if "f \<noteq> []" "\<forall>s\<in>set later. map_option trim (snd s) = Some f \<and>
             Date_now (fst s) GetKeyByFile - ts en \<le> CACHE_TTL_MS"
    using that(2)
  proof (induction later)
    case Nil
    then show ?case by simp
  next
    case (Cons s later)
    obtain e' u where s: "s = (e', u)" by (cases s)
    with Cons.prems have u0: "map_option trim u = Some f"
      and t: "Date_now e' GetKeyByFile - ts en \<le> CACHE_TTL_MS"
      by simp_all
    from that(1) have u: "whenTruthy (map_option trim u) = Some f"
      unfolding u0 by simp
    have "onUpdate e' b u =
      (if thrown e' = Threw then logOutcome e' (failedMessage f) else Returned, b,
       [Lookup SessionKeyByFile f, chatEvent (js ''transcript-'' @ randomUUID e') (val en)]
         @ (if thrown e' = Threw then logged e' (failedMessage f) else []))"
      using onUpdate_Some [OF u one [OF t]] .
    moreover from Cons have "fst (run b later) = b \<and>
            (\<forall>x\<in>set (snd (run b later)). \<not> isResolution x) \<and>
            map sessionKey (payloads (snd (run b later))) = replicate (length later) (val en)"
      by simp
    ultimately show ?case
      unfolding s run_Cons
      by (simp add: chatEvent_def logged_def payloads_append)
  qed
  from one [OF assms(3)] many show ?thesis
    by (simp add: chatEvent_def thrown_def)
qed

theorem fast_path_idempotent_witness:
  "run attach [(demo_env, Some (js '' a.log''))] = (demo_bridge, demo_trace) \<and>
   sessionKeyByFile demo_bridge (js ''a.log'') = Some \<lparr>val = js ''key-alpha'', ts = 1000\<rparr> \<and>
   Date_now demo_later GetKeyByFile - 1000 \<le> CACHE_TTL_MS \<and>
   handleUpdate demo_later demo_bridge (js ''a.log'') =
     (Returned, demo_bridge,
      [Lookup SessionKeyByFile (js ''a.log''),
       Broadcast (js ''chat'')
         \<lparr>runId = js ''transcript-0b0e7a52-6f0c-4c1e-9d3a-5a1c2e4f6a7b'',
          sessionKey = js ''key-alpha'', state = js ''final''\<rparr>
         \<lparr>dropIfSlow = True\<rparr>]) \<and>
   fst (run demo_bridge [(demo_later, Some (js ''a.log'')), (demo_later, Some (js ''a.log  ''))])
     = demo_bridge"
proof -
  have h2: "sessionKeyByFile demo_bridge (js ''a.log'') = Some \<lparr>val = js ''key-alpha'', ts = 1000\<rparr>"
    by (simp add: demo_bridge_def)
  have h3: "Date_now demo_later GetKeyByFile - ts \<lparr>val = js ''key-alpha'', ts = 1000\<rparr> \<le> CACHE_TTL_MS"
    by (simp add: demo_later_def demo_env_def CACHE_TTL_MS_def)
  have h4: "js ''a.log'' \<noteq> [] \<and>
    (\<forall>s\<in>set [(demo_later, Some (js ''a.log'')), (demo_later, Some (js ''a.log  ''))].
       map_option trim (snd s) = Some (js ''a.log'') \<and>
       Date_now (fst s) GetKeyByFile - ts \<lparr>val = js ''key-alpha'', ts = 1000\<rparr> \<le> CACHE_TTL_MS)"
    by (simp add: demo_later_def demo_env_def CACHE_TTL_MS_def trim_def isWhiteSpace_def js_def)
  from fast_path_idempotent [OF demo_first_run h2 h3,
      of "[(demo_later, Some (js ''a.log'')), (demo_later, Some (js ''a.log  ''))]"]
    h4 demo_first_run h2 h3
  show ?thesis
    by (simp add: demo_later_def demo_env_def js_def)
qed

subsection \<open>What is broadcast\<close>

lemma no_broadcast_idTrace: "Broadcast ev p opt \<notin> set (idTrace e b f)"
  by (simp add: idTrace_def split: option.splits)

lemma no_broadcast_keyTrace: "Broadcast ev p opt \<notin> set (keyTrace e b sid)"
  by (simp add: keyTrace_def split: option.splits)

lemma no_broadcast_logged: "Broadcast ev p opt \<notin> set (logged e msg)"
  by (simp add: logged_def)

lemma payloads_idTrace: "payloads (idTrace e b f) = []"
  by (simp add: idTrace_def split: option.splits)

lemma payloads_keyTrace: "payloads (keyTrace e b sid) = []"
  by (simp add: keyTrace_def split: option.splits)

lemma payloads_chatEvent:
  "payloads [chatEvent rid k] = [\<lparr>runId = rid, sessionKey = k, state = js ''final''\<rparr>]"
  by (simp add: chatEvent_def)

lemma handleUpdate_payloads:
  assumes "handleUpdate e b f = (out, b', tr)"
  shows "payloads tr =
     (case cachedKeyOf e b f of
        Some k \<Rightarrow> [\<lparr>runId = js ''transcript-'' @ randomUUID e, sessionKey = k, state = js ''final''\<rparr>]
      | None \<Rightarrow>
          (case identifierOf e b f of
             Returns (Some sid) \<Rightarrow>
               (case keyOf e b sid of
                  Returns (Some k) \<Rightarrow>
                    [\<lparr>runId = js ''transcript-'' @ sid @ js ''-'' @ randomUUID e, sessionKey = k,
                      state = js ''final''\<rparr>]
                | _ \<Rightarrow> [])
           | _ \<Rightarrow> []))"
  using assms
  by (cases rule: handleUpdate_cases)
     (simp_all add: payloads_append payloads_idTrace payloads_keyTrace payloads_logged
        payloads_chatEvent)

text \<open>
  Claim C6 (broadcast payload shape). Every broadcast that \<^verbatim>\<open>handleUpdate\<close> makes is the event
  \<^verbatim>\<open>chat\<close> with the options \<^verbatim>\<open>{dropIfSlow: true}\<close> and a payload of the three fields
  \<^verbatim>\<open>runId\<close>, \<^verbatim>\<open>sessionKey\<close> and \<^verbatim>\<open>state\<close>, the state being \<^verbatim>\<open>final\<close>. On the fast path (a hit
  in the file \<open>\<rightarrow>\<close> key cache) the run identifier is \<^verbatim>\<open>transcript-\<close> followed by the UUID and
  the key is the cached one; on the resolved path it is \<^verbatim>\<open>transcript-\<close>, the session
  identifier of the file, a hyphen and the UUID, and the key is the one that identifier
  resolves to.
\<close>

theorem broadcast_payload_shape:
  "handleUpdate e b f = (out, b', tr) \<Longrightarrow> Broadcast ev p opt \<in> set tr \<Longrightarrow>
     ev = js ''chat'' \<and> opt = \<lparr>dropIfSlow = True\<rparr> \<and>
     p = \<lparr>runId = runId p, sessionKey = sessionKey p, state = js ''final''\<rparr> \<and>
     (case cachedKeyOf e b f of
        Some k \<Rightarrow> runId p = js ''transcript-'' @ randomUUID e \<and> sessionKey p = k
      | None \<Rightarrow>
          (\<exists>sid. identifierOf e b f = Returns (Some sid) \<and>
             runId p = js ''transcript-'' @ sid @ js ''-'' @ randomUUID e \<and>
             keyOf e b sid = Returns (Some (sessionKey p))))"
proof -
  assume h: "handleUpdate e b f = (out, b', tr)" and m: "Broadcast ev p opt \<in> set tr"
  from h show ?thesis
  proof (cases rule: handleUpdate_cases)
    case (fast k)
    with m show ?thesis by (simp add: chatEvent_def)
  next
    case noId
    with m show ?thesis by (simp add: no_broadcast_idTrace)
  next
    case unread
    with m show ?thesis by (simp add: no_broadcast_idTrace)
  next
    case (throws sid)
    with m show ?thesis by (simp add: no_broadcast_idTrace no_broadcast_keyTrace)
  next
    case (notFound sid)
    with m show ?thesis
      by (simp add: no_broadcast_idTrace no_broadcast_keyTrace no_broadcast_logged)
  next
    case (emitted sid k)
    with m show ?thesis
      by (simp add: no_broadcast_idTrace no_broadcast_keyTrace chatEvent_def)
  qed
qed

theorem broadcast_payload_shape_witness:
  "handleUpdate demo_env attach (js ''a.log'') = (Returned, demo_bridge, demo_trace) \<and>
   cachedKeyOf demo_env attach (js ''a.log'') = None \<and>
   identifierOf demo_env attach (js ''a.log'') = Returns (Some (js ''sess-42'')) \<and>
   keyOf demo_env attach (js ''sess-42'') = Returns (Some (js ''key-alpha'')) \<and>
   Broadcast (js ''chat'')
        \<lparr>runId = js ''transcript-sess-42-123e4567-e89b-42d3-a456-426614174000'',
         sessionKey = js ''key-alpha'', state = js ''final''\<rparr>
        \<lparr>dropIfSlow = True\<rparr> \<in> set demo_trace"
proof -
  have m: "Broadcast (js ''chat'')
        \<lparr>runId = js ''transcript-sess-42-123e4567-e89b-42d3-a456-426614174000'',
         sessionKey = js ''key-alpha'', state = js ''final''\<rparr>
        \<lparr>dropIfSlow = True\<rparr> \<in> set demo_trace"
    by (simp add: demo_trace_def)
  have c: "cachedKeyOf demo_env attach (js ''a.log'') = None"
    by (simp add: cachedKeyOf_def attach_def getCached_def)
  from broadcast_payload_shape [OF demo_first m] c demo_first m show ?thesis
    by (auto simp: demo_env_def js_def)
qed

lemma onUpdate_payloads:
  "payloads (snd (snd (onUpdate e b u))) =
     (case whenTruthy (map_option trim u) of
        None \<Rightarrow> []
      | Some f \<Rightarrow> payloads (snd (snd (handleUpdate e b f))))"
  by (cases rule: onUpdate_cases [where u = u and e = e and b = b])
     (simp_all add: payloads_append payloads_logged)

lemma run_payload_key: "p \<in> set (payloads (snd (run b steps))) \<Longrightarrow> sessionKey p \<noteq> []"
proof (induction steps arbitrary: b)
  case Nil
  then show ?case by simp
next
  case (Cons s steps)
  obtain e u where s: "s = (e, u)" by (cases s)
  from Cons.prems consider
      "p \<in> set (payloads (snd (snd (onUpdate e b u))))"
    | "p \<in> set (payloads (snd (run (fst (snd (onUpdate e b u))) steps)))"
    by (auto simp: s run_Cons payloads_append)
  then show ?case
  proof cases
    case 1
    then obtain f where "p \<in> set (payloads (snd (snd (handleUpdate e b f))))"
      by (auto simp: onUpdate_payloads split: option.splits)
    then show ?thesis
      using handleUpdate_payload_key [of e b f "fst (handleUpdate e b f)"
          "fst (snd (handleUpdate e b f))" "snd (snd (handleUpdate e b f))" p]
      by simp
  next
    case 2
    then show ?thesis by (rule Cons.IH)
  qed
qed

lemma qualifying_nonempty: "qualifying parse line = Some ident \<Longrightarrow> ident \<noteq> []"
  by (auto simp: qualifying_def sessionRecordId_def trim_eq_Nil
      split: if_splits option.splits json.splits)

lemma scanLines_nonempty: "scanLines parse ls \<noteq> Some []"
  using scanLines_Some_iff [of parse ls "[]"] qualifying_nonempty [of parse _ "[]"] by blast

lemma readPrefix_nonempty: "readPrefix e f \<noteq> Some []"
proof (cases "fs_file e f")
  case (Bytes content)
  from read_Bytes [OF this] show ?thesis by (simp add: scanLines_nonempty)
qed (simp_all add: readPrefix_def)

lemma read_nonempty: "readSessionIdFromTranscript e f \<noteq> Returns (Some [])"
  by (simp add: read_eq readPrefix_nonempty)

text \<open>
  Claim C10 (emitted keys and identifiers are non-empty). From any bridge, every payload that
  \<^verbatim>\<open>handleUpdate\<close> broadcasts has a non-empty session key, a run identifier of the resolved
  path embeds the non-empty session identifier of the file, and every cache entry present
  afterwards was either present before or holds a non-empty value. The three guards behind
  this: an empty value in the file \<open>\<rightarrow>\<close> key cache counts as a miss, the header reader never
  returns an empty identifier, and an empty key from the resolver counts as not found. So
  after any notifications from attachment, all broadcast keys and all cached values are
  non-empty.
\<close>

theorem emitted_values_nonempty:
  "(handleUpdate e b f = (out, b', tr) \<longrightarrow>
      (\<forall>p\<in>set (payloads tr). sessionKey p \<noteq> [] \<and>
         (cachedKeyOf e b f = None \<longrightarrow>
            (\<exists>sid. sid \<noteq> [] \<and> identifierOf e b f = Returns (Some sid) \<and>
               runId p = js ''transcript-'' @ sid @ js ''-'' @ randomUUID e))) \<and>
      noEmptyWrites b b') \<and>
   (sessionKeyByFile b f = Some en \<and> val en = [] \<longrightarrow> cachedKeyOf e b f = None) \<and>
   readSessionIdFromTranscript e f \<noteq> Returns (Some []) \<and>
   (cachedKeyOfId e b sid = None \<and> resolveSessionKeyForSessionId e sid = Returns (Some []) \<longrightarrow>
      keyOf e b sid = Returns None) \<and>
   (run attach steps = (b'', tr'') \<longrightarrow>
      (\<forall>p\<in>set (payloads tr''). sessionKey p \<noteq> []) \<and>
      (\<forall>c k en'. cacheOf c b'' k = Some en' \<longrightarrow> val en' \<noteq> []))"
proof -
  have one: "(\<forall>p\<in>set (payloads tr). sessionKey p \<noteq> [] \<and>
         (cachedKeyOf e b f = None \<longrightarrow>
            (\<exists>sid. sid \<noteq> [] \<and> identifierOf e b f = Returns (Some sid) \<and>
               runId p = js ''transcript-'' @ sid @ js ''-'' @ randomUUID e))) \<and>
      noEmptyWrites b b'" if h: "handleUpdate e b f = (out, b', tr)"
  proof -
    have "\<exists>sid. sid \<noteq> [] \<and> identifierOf e b f = Returns (Some sid) \<and>
               runId p = js ''transcript-'' @ sid @ js ''-'' @ randomUUID e"
      if "p \<in> set (payloads tr)" "cachedKeyOf e b f = None" for p
      using that handleUpdate_payloads [OF h]
      by (auto split: option.splits completion.splits dest: identifierOf_nonempty)
    with handleUpdate_payload_key [OF h] handleUpdate_noEmptyWrites [OF h] show ?thesis
      by blast
  qed
  have two: "cachedKeyOf e b f = None" if "sessionKeyByFile b f = Some en \<and> val en = []"
    using that by (auto simp: cachedKeyOf_def getCached_def)
  have three: "readSessionIdFromTranscript e f \<noteq> Returns (Some [])"
    by (rule read_nonempty)
  have four: "keyOf e b sid = Returns None"
    if "cachedKeyOfId e b sid = None \<and> resolveSessionKeyForSessionId e sid = Returns (Some [])"
    using that by (simp add: keyOf_def)
  have five: "(\<forall>p\<in>set (payloads tr''). sessionKey p \<noteq> []) \<and>
      (\<forall>c k en'. cacheOf c b'' k = Some en' \<longrightarrow> val en' \<noteq> [])"
    if r: "run attach steps = (b'', tr'')"
    using run_payload_key [of _ attach steps] attach_reachable_nonempty [OF r] r
    by auto
  from one two three four five show ?thesis by blast
qed

theorem emitted_values_nonempty_witness:
  "handleUpdate demo_env attach (js ''a.log'') = (Returned, demo_bridge, demo_trace) \<and>
   run attach [(demo_env, Some (js '' a.log''))] = (demo_bridge, demo_trace) \<and>
   map sessionKey (payloads demo_trace) = [js ''key-alpha''] \<and>
   js ''key-alpha'' \<noteq> [] \<and>
   noEmptyWrites attach demo_bridge \<and>
   cachedKeyOf demo_env
     (attach\<lparr>sessionKeyByFile := [js ''a.log'' \<mapsto> \<lparr>val = [], ts = 1000\<rparr>]\<rparr>) (js ''a.log'') = None \<and>
   resolveSessionKeyForSessionId (demo_env\<lparr>loadStore := Some [([], Some (js ''sess-42''))]\<rparr>)
     (js ''sess-42'') = Returns (Some []) \<and>
   keyOf (demo_env\<lparr>loadStore := Some [([], Some (js ''sess-42''))]\<rparr>) attach (js ''sess-42'')
     = Returns None"
proof -
  have a: "sessionKeyByFile (attach\<lparr>sessionKeyByFile := [js ''a.log'' \<mapsto> \<lparr>val = [], ts = 1000\<rparr>]\<rparr>)
       (js ''a.log'') = Some \<lparr>val = [], ts = 1000\<rparr> \<and> val \<lparr>val = [], ts = 1000\<rparr> = []"
    by simp
  have b: "cachedKeyOfId (demo_env\<lparr>loadStore := Some [([], Some (js ''sess-42''))]\<rparr>) attach
       (js ''sess-42'') = None \<and>
     resolveSessionKeyForSessionId (demo_env\<lparr>loadStore := Some [([], Some (js ''sess-42''))]\<rparr>)
       (js ''sess-42'') = Returns (Some [])"
    by (simp add: cachedKeyOfId_def attach_def getCached_def resolveSessionKeyForSessionId_def
        scanStore_step matchesQuery_def candidateId_def trim_def isWhiteSpace_def js_def)
  note facts =
    emitted_values_nonempty [of demo_env attach "js ''a.log''" Returned demo_bridge demo_trace
      "\<lparr>val = [], ts = 1000\<rparr>" "js ''sess-42''" "[(demo_env, Some (js '' a.log''))]"
      demo_bridge demo_trace]
    emitted_values_nonempty [of demo_env
      "attach\<lparr>sessionKeyByFile := [js ''a.log'' \<mapsto> \<lparr>val = [], ts = 1000\<rparr>]\<rparr>" "js ''a.log''"
      Returned demo_bridge demo_trace "\<lparr>val = [], ts = 1000\<rparr>" "js ''sess-42''" "[]" attach "[]"]
    emitted_values_nonempty [of "demo_env\<lparr>loadStore := Some [([], Some (js ''sess-42''))]\<rparr>"
      attach "js ''a.log''" Returned demo_bridge demo_trace "\<lparr>val = [], ts = 1000\<rparr>"
      "js ''sess-42''" "[]" attach "[]"]
    demo_first demo_first_run a b
  have c: "map sessionKey (payloads demo_trace) = [js ''key-alpha''] \<and> js ''key-alpha'' \<noteq> []"
    by (simp add: demo_trace_def js_def)
  from facts c show ?thesis by blast
qed

subsection \<open>Warnings and the boundary\<close>

lemma warnings_idTrace: "warnings (idTrace e b f) = []"
  by (simp add: idTrace_def split: option.splits)

lemma warnings_keyTrace: "warnings (keyTrace e b sid) = []"
  by (simp add: keyTrace_def split: option.splits)

lemma warnings_chatEvent: "warnings [chatEvent rid k] = []"
  by (simp add: chatEvent_def)

lemma warnings_logged: "warnings (logged e msg) = (if has_log e then [msg] else [])"
  by (simp add: logged_def)

lemma handleUpdate_raises:
  "fst (handleUpdate e b f) = Threw \<longleftrightarrow> raises e b f"
proof -
  obtain out b' tr where h: "handleUpdate e b f = (out, b', tr)"
    by (cases "handleUpdate e b f") auto
  from h show ?thesis
    by (cases rule: handleUpdate_cases) (simp_all add: h raises_def thrown_def logOutcome_def)
qed

lemma handleUpdate_warnings:
  assumes "handleUpdate e b f = (out, b', tr)"
  shows "warnings tr =
     (case unresolvedIdOf e b f of
        Some sid \<Rightarrow> if has_log e then [notFoundMessage sid] else []
      | None \<Rightarrow> [])"
  using assms
  by (cases rule: handleUpdate_cases)
     (simp_all add: unresolvedIdOf_def warnings_append warnings_idTrace warnings_keyTrace
        warnings_chatEvent warnings_logged)

lemma raises_unresolved:
  "raises e b f \<Longrightarrow> unresolvedIdOf e b f = Some sid \<Longrightarrow>
   has_log e \<and> logThrows e (notFoundMessage sid)"
  by (auto simp: raises_def unresolvedIdOf_def split: option.splits completion.splits if_splits)

lemma onUpdate_warnings:
  "warnings (snd (snd (onUpdate e b u))) =
     (if has_log e then
        (case whenTruthy (map_option trim u) of
           None \<Rightarrow> []
         | Some f \<Rightarrow>
             (case unresolvedIdOf e b f of
                Some sid \<Rightarrow> [notFoundMessage sid]
              | None \<Rightarrow> []) @
             (if raises e b f then [failedMessage f] else []))
      else [])"
proof (cases rule: onUpdate_cases [where u = u and e = e and b = b])
  case dropped
  then show ?thesis by simp
next
  case (handled f out b' tr)
  from handled(2) have "out = Threw \<longleftrightarrow> raises e b f"
    using handleUpdate_raises [of e b f] by simp
  with handled handleUpdate_warnings [OF handled(2)] show ?thesis
    by (simp add: warnings_append warnings_logged split: option.splits)
qed

lemma onUpdate_outcome:
  "fst (onUpdate e b u) = Threw \<longleftrightarrow>
     has_log e \<and>
     (\<exists>f. whenTruthy (map_option trim u) = Some f \<and> raises e b f \<and>
        logThrows e (failedMessage f))"
proof (cases rule: onUpdate_cases [where u = u and e = e and b = b])
  case dropped
  then show ?thesis by simp
next
  case (handled f out b' tr)
  from handled(2) have "out = Threw \<longleftrightarrow> raises e b f"
    using handleUpdate_raises [of e b f] by simp
  with handled show ?thesis
    by (simp add: logOutcome_def)
qed

text \<open>
  Claim C5 (warning iff), as the code has it. Every warning goes through
  \<^verbatim>\<open>params.log?.warn\<close>, a call that is made only when a logger was given and that is not
  guarded, neither in \<^verbatim>\<open>handleUpdate\<close> nor in the \<^verbatim>\<open>catch\<close> block of the callback.

  \<^item> In general the calls of the logger during one notification are: none without a logger or
    for a blank path; otherwise the warning that contains the session identifier when an
    identifier was obtained and neither cache nor store resolves it, followed by the warning
    that names the trimmed file when handling raises.
  \<^item> Handling raises exactly when closing the transcript, the store loader, the sink, or the
    logger on the first warning throws.
  \<^item> The callback has an exceptional outcome exactly when handling raises and the logger throws
    on the warning that names the file.
  \<^item> With a logger that returns normally, nothing propagates, raising and failing to resolve
    exclude each other, and exactly one warning is logged in either case, none otherwise
    (emission from the cache, header not found, successful resolution).
  \<^item> Without a logger nothing is logged and nothing propagates.
  \<^item> After an exception of \<^verbatim>\<open>handleUpdate\<close> the callback does nothing but call the logger.
\<close>

theorem warning_iff:
  "warnings (snd (snd (onUpdate e b u))) =
     (if has_log e then
        (case whenTruthy (map_option trim u) of
           None \<Rightarrow> []
         | Some f \<Rightarrow>
             (case unresolvedIdOf e b f of
                Some sid \<Rightarrow>
                  [js ''transcript update ignored; session key not found ('' @ sid @ js '')'']
              | None \<Rightarrow> []) @
             (if fst (handleUpdate e b f) = Threw
              then [js ''failed to handle transcript update ('' @ f @ js '')'']
              else []))
      else []) \<and>
   (fst (handleUpdate e b g) = Threw \<longleftrightarrow> raises e b g) \<and>
   (fst (onUpdate e b u) = Threw \<longleftrightarrow>
      has_log e \<and>
      (\<exists>f. whenTruthy (map_option trim u) = Some f \<and> fst (handleUpdate e b f) = Threw \<and>
         logThrows e (js ''failed to handle transcript update ('' @ f @ js '')''))) \<and>
   (has_log e \<and> (\<forall>msg. \<not> logThrows e msg) \<longrightarrow>
      fst (onUpdate e b u) = Returned \<and>
      (raises e b g \<longrightarrow> unresolvedIdOf e b g = None) \<and>
      warnings (snd (snd (onUpdate e b u))) =
        (case whenTruthy (map_option trim u) of
           None \<Rightarrow> []
         | Some f \<Rightarrow>
             if fst (handleUpdate e b f) = Threw
             then [js ''failed to handle transcript update ('' @ f @ js '')'']
             else (case unresolvedIdOf e b f of
                     Some sid \<Rightarrow>
                       [js ''transcript update ignored; session key not found ('' @ sid @ js '')'']
                   | None \<Rightarrow> []))) \<and>
   (\<not> has_log e \<longrightarrow>
      fst (onUpdate e b u) = Returned \<and> warnings (snd (snd (onUpdate e b u))) = []) \<and>
   (whenTruthy (map_option trim u) = Some g \<and> fst (handleUpdate e b g) = Threw \<longrightarrow>
      snd (onUpdate e b u) =
        (fst (snd (handleUpdate e b g)),
         snd (snd (handleUpdate e b g)) @
           (if has_log e then [Warn (js ''failed to handle transcript update ('' @ g @ js '')'')]
            else [])))"
proof -
  note r = handleUpdate_raises
  have first: "warnings (snd (snd (onUpdate e b u))) =
     (if has_log e then
        (case whenTruthy (map_option trim u) of
           None \<Rightarrow> []
         | Some f \<Rightarrow>
             (case unresolvedIdOf e b f of
                Some sid \<Rightarrow>
                  [js ''transcript update ignored; session key not found ('' @ sid @ js '')'']
              | None \<Rightarrow> []) @
             (if fst (handleUpdate e b f) = Threw
              then [js ''failed to handle transcript update ('' @ f @ js '')'']
              else []))
      else [])"
    unfolding onUpdate_warnings r notFoundMessage_def failedMessage_def ..
  have second: "fst (handleUpdate e b g) = Threw \<longleftrightarrow> raises e b g"
    by (rule r)
  have third: "fst (onUpdate e b u) = Threw \<longleftrightarrow>
      has_log e \<and>
      (\<exists>f. whenTruthy (map_option trim u) = Some f \<and> fst (handleUpdate e b f) = Threw \<and>
         logThrows e (js ''failed to handle transcript update ('' @ f @ js '')''))"
    unfolding onUpdate_outcome r failedMessage_def ..
  have fourth: "fst (onUpdate e b u) = Returned \<and>
      (raises e b g \<longrightarrow> unresolvedIdOf e b g = None) \<and>
      warnings (snd (snd (onUpdate e b u))) =
        (case whenTruthy (map_option trim u) of
           None \<Rightarrow> []
         | Some f \<Rightarrow>
             if fst (handleUpdate e b f) = Threw
             then [js ''failed to handle transcript update ('' @ f @ js '')'']
             else (case unresolvedIdOf e b f of
                     Some sid \<Rightarrow>
                       [js ''transcript update ignored; session key not found ('' @ sid @ js '')'']
                   | None \<Rightarrow> []))"
    if "has_log e \<and> (\<forall>msg. \<not> logThrows e msg)"
  proof -
    from that have l: "has_log e" and q: "\<And>msg. \<not> logThrows e msg" by simp_all
    have excl: "unresolvedIdOf e b f = None" if "raises e b f" for f
      using raises_unresolved [OF that] q by (cases "unresolvedIdOf e b f") auto
    from q have "fst (onUpdate e b u) \<noteq> Threw" by (simp add: onUpdate_outcome)
    then have a: "fst (onUpdate e b u) = Returned"
      by (cases "fst (onUpdate e b u)") simp_all
    have c: "warnings (snd (snd (onUpdate e b u))) =
        (case whenTruthy (map_option trim u) of
           None \<Rightarrow> []
         | Some f \<Rightarrow>
             if raises e b f then [failedMessage f]
             else (case unresolvedIdOf e b f of
                     Some sid \<Rightarrow> [notFoundMessage sid]
                   | None \<Rightarrow> []))"
      using l excl by (simp add: onUpdate_warnings split: option.splits)
    from a excl [of g] c show ?thesis
      unfolding r notFoundMessage_def failedMessage_def by simp
  qed
  have fifth: "fst (onUpdate e b u) = Returned \<and> warnings (snd (snd (onUpdate e b u))) = []"
    if "\<not> has_log e"
  proof -
    from that have "fst (onUpdate e b u) \<noteq> Threw" by (simp add: onUpdate_outcome)
    then have "fst (onUpdate e b u) = Returned"
      by (cases "fst (onUpdate e b u)") simp_all
    with that show ?thesis by (simp add: onUpdate_warnings)
  qed
  have sixth: "snd (onUpdate e b u) =
        (fst (snd (handleUpdate e b g)),
         snd (snd (handleUpdate e b g)) @
           (if has_log e then [Warn (js ''failed to handle transcript update ('' @ g @ js '')'')]
            else []))"
    if c: "whenTruthy (map_option trim u) = Some g \<and> fst (handleUpdate e b g) = Threw"
  proof -
    obtain out b' tr where h: "handleUpdate e b g = (out, b', tr)"
      by (cases "handleUpdate e b g") auto
    with c have "whenTruthy (map_option trim u) = Some g" "out = Threw" by simp_all
    with onUpdate_Some [OF this(1) h] h show ?thesis
      by (simp add: failedMessage_def logged_def)
  qed
  from first second third fourth fifth sixth show ?thesis by blast
qed

lemma demo_lookups:
  "cachedKeyOf e attach f = None" "cachedIdOf e attach f = None" "cachedKeyOfId e attach sid = None"
  by (simp_all add: cachedKeyOf_def cachedIdOf_def cachedKeyOfId_def attach_def getCached_def)

lemma demo_read:
  "fs_file e = fs_file demo_env \<Longrightarrow> utf8 e = utf8 demo_env \<Longrightarrow>
   JSON_parse e = JSON_parse demo_env \<Longrightarrow>
   readPrefix e (js ''a.log'') = Some (js ''sess-42'')"
  by (simp add: readPrefix_def HEADER_READ_BYTES_def demo_defs scanLines.simps trim_def
      isWhiteSpace_def)

lemma demo_identifier:
  assumes "fs_file e = fs_file demo_env" "utf8 e = utf8 demo_env"
    "JSON_parse e = JSON_parse demo_env" "closeThrows e = closeThrows demo_env"
  shows "identifierOf e attach (js ''a.log'') = Returns (Some (js ''sess-42''))"
proof -
  have "js ''sess-42'' \<noteq> []" by (simp add: js_def)
  moreover have "\<not> closeThrows e (js ''a.log'')"
    using assms(4) by (simp add: demo_env_def)
  ultimately show ?thesis
    using demo_read [OF assms(1-3)]
    by (simp add: identifierOf_def demo_lookups readId_def read_eq)
qed

theorem warning_iff_witness:
  "has_log demo_unregistered \<and> has_log demo_broken \<and> has_log demo_env \<and>
   unresolvedIdOf demo_unregistered attach (js ''a.log'') = Some (js ''sess-42'') \<and>
   onUpdate demo_unregistered attach (Some (js ''a.log'')) =
     (Returned, demo_half,
      [Lookup SessionKeyByFile (js ''a.log''), Lookup SessionIdByFile (js ''a.log''),
       ReadHeader (js ''a.log''), Lookup SessionKeyById (js ''sess-42''),
       ResolveKey (js ''sess-42''),
       Warn (js ''transcript update ignored; session key not found (sess-42)'')]) \<and>
   raises demo_broken attach (js ''a.log'') \<and>
   fst (onUpdate demo_broken attach (Some (js ''a.log''))) = Returned \<and>
   warnings (snd (snd (onUpdate demo_broken attach (Some (js ''a.log''))))) =
     [js ''failed to handle transcript update (a.log)''] \<and>
   fst (onUpdate demo_env attach (Some (js ''a.log''))) = Returned \<and>
   warnings (snd (snd (onUpdate demo_env attach (Some (js ''a.log''))))) = [] \<and>
   fst (onUpdate demo_silent attach (Some (js ''a.log''))) = Returned"
proof -
  have logs: "has_log demo_unregistered" "has_log demo_broken" "has_log demo_env"
    "\<not> has_log demo_silent"
    by (simp_all add: demo_unregistered_def demo_broken_def demo_env_def demo_silent_def)
  have quiet: "\<forall>msg. \<not> logThrows demo_unregistered msg" "\<forall>msg. \<not> logThrows demo_broken msg"
    "\<forall>msg. \<not> logThrows demo_env msg"
    by (simp_all add: demo_unregistered_def demo_broken_def demo_env_def)
  have f: "whenTruthy (map_option trim (Some (js ''a.log''))) = Some (js ''a.log'')"
    by (simp add: trim_def isWhiteSpace_def js_def)
  note c = demo_lookups
  have i: "identifierOf demo_unregistered attach (js ''a.log'') = Returns (Some (js ''sess-42''))"
    "identifierOf demo_broken attach (js ''a.log'') = Returns (Some (js ''sess-42''))"
    "identifierOf demo_env attach (js ''a.log'') = Returns (Some (js ''sess-42''))"
    by (rule demo_identifier; simp add: demo_unregistered_def demo_broken_def)+
  have k1: "keyOf demo_unregistered attach (js ''sess-42'') = Returns None"
    by (simp add: keyOf_def c demo_unregistered_def resolveSessionKeyForSessionId_def)
  have k2: "keyOf demo_broken attach (js ''sess-42'') = Throws"
    by (simp add: keyOf_def c demo_broken_def resolveSessionKeyForSessionId_def)
  have "resolveSessionKeyForSessionId demo_env (js ''sess-42'') = Returns (Some (js ''key-alpha''))"
    by (simp add: demo_env_def resolveSessionKeyForSessionId_def scanStore_step
        matchesQuery_def candidateId_def trim_def isWhiteSpace_def js_def)
  moreover have "js ''key-alpha'' \<noteq> []" by (simp add: js_def)
  ultimately have k3: "keyOf demo_env attach (js ''sess-42'') = Returns (Some (js ''key-alpha''))"
    by (simp add: keyOf_def c)
  have nt: "\<not> broadcastThrows demo_env" by (simp add: demo_env_def)
  have u1: "unresolvedIdOf demo_unregistered attach (js ''a.log'') = Some (js ''sess-42'')"
    by (simp add: unresolvedIdOf_def c i k1)
  have u3: "unresolvedIdOf demo_env attach (js ''a.log'') = None"
    by (simp add: unresolvedIdOf_def c i k3)
  have r1: "\<not> raises demo_unregistered attach (js ''a.log'')"
    by (simp add: raises_def c i k1 quiet)
  have r2: "raises demo_broken attach (js ''a.log'')"
    by (simp add: raises_def c i k2)
  have r3: "\<not> raises demo_env attach (js ''a.log'')"
    by (simp add: raises_def c i k3 nt)
  have h1: "onUpdate demo_unregistered attach (Some (js ''a.log'')) =
     (Returned, demo_half,
      [Lookup SessionKeyByFile (js ''a.log''), Lookup SessionIdByFile (js ''a.log''),
       ReadHeader (js ''a.log''), Lookup SessionKeyById (js ''sess-42''),
       ResolveKey (js ''sess-42''),
       Warn (js ''transcript update ignored; session key not found (sess-42)'')])"
    by (simp add: demo_unregistered_def model_defs demo_defs demo_half_def)
  have m: "js ''failed to handle transcript update ('' @ js ''a.log'' @ js '')'' =
      js ''failed to handle transcript update (a.log)''"
    by (simp add: js_def)
  have u2: "unresolvedIdOf demo_broken attach (js ''a.log'') = None"
    by (simp add: unresolvedIdOf_def c i k2)
  have t: "fst (handleUpdate demo_broken attach (js ''a.log'')) = Threw"
    "fst (handleUpdate demo_env attach (js ''a.log'')) \<noteq> Threw"
    using r2 r3 by (simp_all add: handleUpdate_raises)
  note w = warning_iff [where b = attach and u = "Some (js ''a.log'')" and g = "js ''a.log''"]
  note polite = w [THEN conjunct2, THEN conjunct2, THEN conjunct2, THEN conjunct1, rule_format,
      OF conjI]
  note mute = w [THEN conjunct2, THEN conjunct2, THEN conjunct2, THEN conjunct2, THEN conjunct1,
      rule_format]
  from polite [OF logs(2) quiet(2)]
  have b2: "fst (onUpdate demo_broken attach (Some (js ''a.log''))) = Returned"
    "warnings (snd (snd (onUpdate demo_broken attach (Some (js ''a.log''))))) =
       [js ''failed to handle transcript update (a.log)'']"
    unfolding f by (simp_all add: t m)
  from polite [OF logs(3) quiet(3)]
  have b3: "fst (onUpdate demo_env attach (Some (js ''a.log''))) = Returned"
    "warnings (snd (snd (onUpdate demo_env attach (Some (js ''a.log''))))) = []"
    unfolding f by (simp_all add: t u3)
  from mute [OF logs(4)]
  have b4: "fst (onUpdate demo_silent attach (Some (js ''a.log''))) = Returned"
    by simp
  from logs(1-3) u1 h1 r2 b2 b3 b4 show ?thesis by (intro conjI)
qed

text \<open>
  The claim fails on a bridge attached without a logger, which obtains an identifier that it
  cannot resolve and logs nothing; and on a bridge whose logger throws, where the exception
  raised by the store loader is caught at the boundary and the one raised by the warning in
  the \<^verbatim>\<open>catch\<close> block reaches the watcher.
\<close>

theorem warning_logger_counterexample:
  "unresolvedIdOf demo_silent attach (js ''a.log'') = Some (js ''sess-42'') \<and>
   onUpdate demo_silent attach (Some (js ''a.log'')) =
     (Returned, demo_half,
      [Lookup SessionKeyByFile (js ''a.log''), Lookup SessionIdByFile (js ''a.log''),
       ReadHeader (js ''a.log''), Lookup SessionKeyById (js ''sess-42''),
       ResolveKey (js ''sess-42'')]) \<and>
   handleUpdate demo_loud attach (js ''a.log'') =
     (Threw, demo_half,
      [Lookup SessionKeyByFile (js ''a.log''), Lookup SessionIdByFile (js ''a.log''),
       ReadHeader (js ''a.log''), Lookup SessionKeyById (js ''sess-42''),
       ResolveKey (js ''sess-42'')]) \<and>
   onUpdate demo_loud attach (Some (js ''a.log'')) =
     (Threw, demo_half,
      [Lookup SessionKeyByFile (js ''a.log''), Lookup SessionIdByFile (js ''a.log''),
       ReadHeader (js ''a.log''), Lookup SessionKeyById (js ''sess-42''),
       ResolveKey (js ''sess-42''),
       Warn (js ''failed to handle transcript update (a.log)'')])"
proof -
  have i: "identifierOf demo_silent attach (js ''a.log'') = Returns (Some (js ''sess-42''))"
    by (rule demo_identifier; simp add: demo_silent_def demo_unregistered_def)
  have k: "keyOf demo_silent attach (js ''sess-42'') = Returns None"
    by (simp add: keyOf_def demo_lookups demo_silent_def demo_unregistered_def
        resolveSessionKeyForSessionId_def)
  have a: "unresolvedIdOf demo_silent attach (js ''a.log'') = Some (js ''sess-42'')"
    by (simp add: unresolvedIdOf_def demo_lookups i k)
  have b: "onUpdate demo_silent attach (Some (js ''a.log'')) =
     (Returned, demo_half,
      [Lookup SessionKeyByFile (js ''a.log''), Lookup SessionIdByFile (js ''a.log''),
       ReadHeader (js ''a.log''), Lookup SessionKeyById (js ''sess-42''),
       ResolveKey (js ''sess-42'')])"
    by (simp add: demo_silent_def demo_unregistered_def model_defs demo_defs demo_half_def)
  have c: "handleUpdate demo_loud attach (js ''a.log'') =
     (Threw, demo_half,
      [Lookup SessionKeyByFile (js ''a.log''), Lookup SessionIdByFile (js ''a.log''),
       ReadHeader (js ''a.log''), Lookup SessionKeyById (js ''sess-42''),
       ResolveKey (js ''sess-42'')])"
    by (simp add: demo_loud_def demo_broken_def model_defs demo_defs demo_half_def)
  have d: "onUpdate demo_loud attach (Some (js ''a.log'')) =
     (Threw, demo_half,
      [Lookup SessionKeyByFile (js ''a.log''), Lookup SessionIdByFile (js ''a.log''),
       ReadHeader (js ''a.log''), Lookup SessionKeyById (js ''sess-42''),
       ResolveKey (js ''sess-42''),
       Warn (js ''failed to handle transcript update (a.log)'')])"
    by (simp add: demo_loud_def demo_broken_def model_defs demo_defs demo_half_def)
  from a b c d show ?thesis by (intro conjI)
qed

text \<open>
  Claim C9 (blank file path dropped at the boundary). A notification whose \<^verbatim>\<open>sessionFile\<close> is
  absent, empty or made of whitespace only returns at once, leaves the bridge as it is and has
  no effect at all: no cache lookup, no file read, no store scan, no broadcast, no warning. For
  any other path the callback runs \<^verbatim>\<open>handleUpdate\<close> on the trimmed path, whose first effect
  is the lookup of the trimmed path in the file \<open>\<rightarrow>\<close> key cache, and warns with the trimmed
  path when that raises.
\<close>

theorem blank_path_dropped:
  "onUpdate e b None = (Returned, b, []) \<and>
   (blank s \<longrightarrow> onUpdate e b (Some s) = (Returned, b, [])) \<and>
   (\<not> blank s \<longrightarrow>
      onUpdate e b (Some s) =
        (case handleUpdate e b (trim s) of
           (Returned, b', tr) \<Rightarrow> (Returned, b', tr)
         | (Threw, b', tr) \<Rightarrow>
             after tr
               (warn e b' (js ''failed to handle transcript update ('' @ trim s @ js '')''))) \<and>
      (\<exists>tr'. snd (snd (onUpdate e b (Some s))) = Lookup SessionKeyByFile (trim s) # tr'))"
proof -
  have a: "onUpdate e b None = (Returned, b, [])" by (simp add: onUpdate_def)
  have b: "onUpdate e b (Some s) = (Returned, b, [])" if "blank s"
    using that by (simp add: onUpdate_def trim_eq_Nil)
  have c: "onUpdate e b (Some s) =
        (case handleUpdate e b (trim s) of
           (Returned, b', tr) \<Rightarrow> (Returned, b', tr)
         | (Threw, b', tr) \<Rightarrow>
             after tr
               (warn e b' (js ''failed to handle transcript update ('' @ trim s @ js '')'')))"
    if "\<not> blank s"
    using that by (simp add: onUpdate_def trim_eq_Nil)
  have d: "\<exists>tr'. snd (snd (onUpdate e b (Some s))) = Lookup SessionKeyByFile (trim s) # tr'"
    if "\<not> blank s"
  proof -
    obtain out b' tr where h: "handleUpdate e b (trim s) = (out, b', tr)"
      by (cases "handleUpdate e b (trim s)") auto
    then have "\<exists>tr'. tr = Lookup SessionKeyByFile (trim s) # tr'"
      by (cases rule: handleUpdate_cases) (simp_all add: idTrace_def)
    with h that c show ?thesis by (cases out) (auto simp: warn_eq after_def)
  qed
  from a b c d show ?thesis by blast
qed

theorem blank_path_dropped_witness:
  "blank (js ''  '') \<and> onUpdate demo_env attach (Some (js ''  '')) = (Returned, attach, []) \<and>
   \<not> blank (js '' a.log'') \<and> trim (js '' a.log'') = js ''a.log'' \<and>
   onUpdate demo_env attach (Some (js '' a.log'')) = (Returned, demo_bridge, demo_trace)"
proof -
  have h: "blank (js ''  '')" "\<not> blank (js '' a.log'')" "trim (js '' a.log'') = js ''a.log''"
    by (simp_all add: blank_def trim_def isWhiteSpace_def js_def)
  from blank_path_dropped [of demo_env attach "js ''  ''"]
    blank_path_dropped [of demo_env attach "js '' a.log''"] h demo_first
  show ?thesis by simp
qed

subsection \<open>After a failure\<close>

lemma cachedKeyOf_again:
  assumes "cachedKeyOf e b f = None" "sessionKeyByFile b' = keyByFileAfter e b f"
  shows "cachedKeyOf e2 b' f = None"
  using assms getCached_again [of "Date_now e GetKeyByFile" "sessionKeyByFile b" f]
  by (simp add: cachedKeyOf_def keyByFileAfter_def)

lemma cachedKeyOfId_again:
  assumes "cachedKeyOfId e b sid = None"
    "sessionKeyById b' = snd (getCached (Date_now e GetKeyById) (sessionKeyById b) sid)"
  shows "cachedKeyOfId e2 b' sid = None"
  using assms getCached_again [of "Date_now e GetKeyById" "sessionKeyById b" sid]
  by (simp add: cachedKeyOfId_def)

lemma cachedIdOf_again:
  assumes "cachedIdOf e b f = None"
    "sessionIdByFile b' = snd (getCached (Date_now e GetIdByFile) (sessionIdByFile b) f)"
  shows "cachedIdOf e2 b' f = None"
  using assms getCached_again [of "Date_now e GetIdByFile" "sessionIdByFile b" f]
  by (simp add: cachedIdOf_def)

lemma keyOf_not_Some_after:
  assumes "keyOf e b sid = Throws \<or> keyOf e b sid = Returns None"
  shows "cachedKeyOfId e b sid = None \<and>
     keyByIdAfter e b sid = snd (getCached (Date_now e GetKeyById) (sessionKeyById b) sid)"
proof -
  from assms have c: "cachedKeyOfId e b sid = None"
    by (auto simp: keyOf_def split: option.splits)
  from assms show ?thesis
    unfolding keyByIdAfter_def Let_def c by auto
qed

lemma readId_Some:
  "readId e f = Returns (Some sid) \<longleftrightarrow> readSessionIdFromTranscript e f = Returns (Some sid)"
proof (cases "readSessionIdFromTranscript e f")
  case Throws
  then show ?thesis by (simp add: readId_def)
next
  case (Returns r)
  with read_nonempty [of e f] have "r \<noteq> Some []" by simp
  with Returns show ?thesis
    by (cases r) (auto simp: readId_def)
qed

lemma idByFileAfter_cases:
  "identifierOf e b f = Returns None \<or> identifierOf e b f = Throws \<Longrightarrow>
     cachedIdOf e b f = None \<and>
     idByFileAfter e b f = snd (getCached (Date_now e GetIdByFile) (sessionIdByFile b) f)"
  "identifierOf e b f = Returns (Some sid) \<Longrightarrow>
     (cachedIdOf e b f = Some sid \<and> idByFileAfter e b f = sessionIdByFile b) \<or>
     (cachedIdOf e b f = None \<and> readSessionIdFromTranscript e f = Returns (Some sid) \<and>
      idByFileAfter e b f =
        (sessionIdByFile b)(f \<mapsto> \<lparr>val = sid, ts = Date_now e SetIdByFile\<rparr>))"
proof -
  show "identifierOf e b f = Returns None \<or> identifierOf e b f = Throws \<Longrightarrow>
     cachedIdOf e b f = None \<and>
     idByFileAfter e b f = snd (getCached (Date_now e GetIdByFile) (sessionIdByFile b) f)"
    by (auto simp: identifierOf_def idByFileAfter_def Let_def split: option.splits)
next
  assume i: "identifierOf e b f = Returns (Some sid)"
  show "(cachedIdOf e b f = Some sid \<and> idByFileAfter e b f = sessionIdByFile b) \<or>
     (cachedIdOf e b f = None \<and> readSessionIdFromTranscript e f = Returns (Some sid) \<and>
      idByFileAfter e b f =
        (sessionIdByFile b)(f \<mapsto> \<lparr>val = sid, ts = Date_now e SetIdByFile\<rparr>))"
  proof (cases "cachedIdOf e b f")
    case None
    have "(snd (getCached (Date_now e GetIdByFile) (sessionIdByFile b) f))
            (f \<mapsto> \<lparr>val = sid, ts = Date_now e SetIdByFile\<rparr>) =
          (sessionIdByFile b)(f \<mapsto> \<lparr>val = sid, ts = Date_now e SetIdByFile\<rparr>)"
      using getCached_snd [of "Date_now e GetIdByFile" "sessionIdByFile b" f] by auto
    moreover from None i have r: "readId e f = Returns (Some sid)"
      by (simp add: identifierOf_def)
    moreover from r have "readSessionIdFromTranscript e f = Returns (Some sid)"
      by (simp add: readId_Some)
    ultimately show ?thesis
      using None by (simp add: idByFileAfter_def Let_def setCached_def)
  next
    case (Some x)
    with i have x: "x = sid" by (simp add: identifierOf_def)
    from Some have "snd (getCached (Date_now e GetIdByFile) (sessionIdByFile b) f) = sessionIdByFile b"
      by (simp add: cachedIdOf_def whenTruthy_Some getCached_snd_hit)
    with Some x show ?thesis by (simp add: idByFileAfter_def Let_def)
  qed
qed

lemma quiet_miss:
  assumes first: "handleUpdate e b f = (out, b', tr)" and quiet: "payloads tr = []"
  shows "cachedKeyOf e2 b' f = None"
  using first
proof (cases rule: handleUpdate_cases)
  case (fast k)
  with quiet show ?thesis by (simp add: payloads_chatEvent)
next
  case noId
  show ?thesis by (rule cachedKeyOf_again [of e b f]) (simp_all add: noId)
next
  case unread
  show ?thesis by (rule cachedKeyOf_again [of e b f]) (simp_all add: unread)
next
  case (throws sid)
  show ?thesis by (rule cachedKeyOf_again [of e b f]) (simp_all add: throws)
next
  case (notFound sid)
  show ?thesis by (rule cachedKeyOf_again [of e b f]) (simp_all add: notFound)
next
  case (emitted sid k)
  with quiet show ?thesis
    by (simp add: payloads_append payloads_idTrace payloads_keyTrace payloads_chatEvent)
qed

lemma quiet_trace:
  assumes first: "handleUpdate e b f = (out, b', tr)" and quiet: "payloads tr = []"
  shows "cachedKeyOf e b f = None \<and> (ReadHeader f \<in> set tr \<longleftrightarrow> cachedIdOf e b f = None)"
  using first
proof (cases rule: handleUpdate_cases)
  case (fast k)
  with quiet show ?thesis by (simp add: payloads_chatEvent)
next
  case noId
  then show ?thesis by (simp add: idTrace_def split: option.splits)
next
  case unread
  then show ?thesis by (simp add: idTrace_def split: option.splits)
next
  case (throws sid)
  then show ?thesis by (simp add: idTrace_def keyTrace_def split: option.splits)
next
  case (notFound sid)
  then show ?thesis by (simp add: idTrace_def keyTrace_def logged_def split: option.splits)
next
  case (emitted sid k)
  with quiet show ?thesis
    by (simp add: payloads_append payloads_idTrace payloads_keyTrace payloads_chatEvent)
qed

lemma quiet_noid:
  assumes first: "handleUpdate e b f = (out, b', tr)" and quiet: "payloads tr = []"
    and i: "identifierOf e b f = Returns None \<or> identifierOf e b f = Throws"
  shows "cachedIdOf e2 b' f = None"
  using first
proof (cases rule: handleUpdate_cases)
  case (fast k)
  with quiet show ?thesis by (simp add: payloads_chatEvent)
next
  case noId
  show ?thesis
    by (rule cachedIdOf_again [of e b f]) (use idByFileAfter_cases(1) [OF i] noId in simp_all)
next
  case unread
  show ?thesis
    by (rule cachedIdOf_again [of e b f]) (use idByFileAfter_cases(1) [OF i] unread in simp_all)
next
  case (throws sid)
  with i show ?thesis by simp
next
  case (notFound sid)
  with i show ?thesis by simp
next
  case (emitted sid k)
  with i show ?thesis by simp
qed

lemma cachedIdOf_after:
  assumes i: "identifierOf e b f = Returns (Some sid)"
    and s: "sessionIdByFile b' = idByFileAfter e b f"
  shows "cachedIdOf e2 b' f = None \<or> cachedIdOf e2 b' f = Some sid"
proof (cases "cachedIdOf e2 b' f")
  case None
  then show ?thesis by simp
next
  case (Some x)
  then obtain en where en: "sessionIdByFile b' f = Some en" "val en = x"
    unfolding cachedIdOf_def whenTruthy_Some getCached_Some by blast
  from idByFileAfter_cases(2) [OF i] show ?thesis
  proof
    assume a: "cachedIdOf e b f = Some sid \<and> idByFileAfter e b f = sessionIdByFile b"
    then obtain en' where "sessionIdByFile b f = Some en'" "val en' = sid"
      unfolding cachedIdOf_def whenTruthy_Some getCached_Some by blast
    with a s en have "x = sid" by simp
    with Some show ?thesis by simp
  next
    assume a: "cachedIdOf e b f = None \<and>
      readSessionIdFromTranscript e f = Returns (Some sid) \<and>
      idByFileAfter e b f = (sessionIdByFile b)(f \<mapsto> \<lparr>val = sid, ts = Date_now e SetIdByFile\<rparr>)"
    with s en have "x = sid" by auto
    with Some show ?thesis by simp
  qed
qed

lemma quiet_keyById:
  assumes first: "handleUpdate e b f = (out, b', tr)" and quiet: "payloads tr = []"
    and i: "identifierOf e b f = Returns (Some sid)"
  shows "cachedKeyOfId e2 b' sid = None \<and> sessionIdByFile b' = idByFileAfter e b f \<and>
     sessionKeyById b' = snd (getCached (Date_now e GetKeyById) (sessionKeyById b) sid)"
  using first
proof (cases rule: handleUpdate_cases)
  case (fast k)
  with quiet show ?thesis by (simp add: payloads_chatEvent)
next
  case noId
  with i show ?thesis by simp
next
  case unread
  with i show ?thesis by simp
next
  case (throws sid')
  with i have s: "sid' = sid" by simp
  have kk: "cachedKeyOfId e b sid' = None \<and>
    keyByIdAfter e b sid' = snd (getCached (Date_now e GetKeyById) (sessionKeyById b) sid')"
    by (rule keyOf_not_Some_after) (simp add: throws(3))
  have "cachedKeyOfId e2 b' sid = None"
    by (rule cachedKeyOfId_again [of e b sid]) (use kk throws(5) s in simp_all)
  with throws(5) kk s show ?thesis by simp
next
  case (notFound sid')
  with i have s: "sid' = sid" by simp
  have kk: "cachedKeyOfId e b sid' = None \<and>
    keyByIdAfter e b sid' = snd (getCached (Date_now e GetKeyById) (sessionKeyById b) sid')"
    by (rule keyOf_not_Some_after) (simp add: notFound(3))
  have "cachedKeyOfId e2 b' sid = None"
    by (rule cachedKeyOfId_again [of e b sid]) (use kk notFound(5) s in simp_all)
  with notFound(5) kk s show ?thesis by simp
next
  case (emitted sid' k)
  with quiet show ?thesis
    by (simp add: payloads_append payloads_idTrace payloads_keyTrace payloads_chatEvent)
qed

lemma reads_on_miss:
  assumes "handleUpdate e b f = (out, b', tr)" "cachedKeyOf e b f = None" "cachedIdOf e b f = None"
  shows "ReadHeader f \<in> set tr"
  using assms
  by (cases rule: handleUpdate_cases) (simp_all add: idTrace_def)

lemma resolves_on_miss:
  assumes "handleUpdate e b f = (out, b', tr)" "cachedKeyOf e b f = None"
    "cachedIdOf e b f = Some sid" "cachedKeyOfId e b sid = None"
  shows "ResolveKey sid \<in> set tr \<and> ReadHeader f \<notin> set tr"
  using assms
  by (cases rule: handleUpdate_cases)
     (simp_all add: identifierOf_def idTrace_def keyTrace_def logged_def chatEvent_def)

lemma quiet_keyByFile:
  assumes first: "handleUpdate e b f = (out, b', tr)" and quiet: "payloads tr = []"
  shows "sessionKeyByFile b' = keyByFileAfter e b f"
  using first
proof (cases rule: handleUpdate_cases)
  case (emitted sid k)
  with quiet show ?thesis
    by (simp add: payloads_append payloads_idTrace payloads_keyTrace payloads_chatEvent)
qed simp_all

lemma noid_caches:
  assumes first: "handleUpdate e b f = (out, b', tr)" and quiet: "payloads tr = []"
    and i: "identifierOf e b f = Returns None \<or> identifierOf e b f = Throws"
  shows "sessionKeyById b' = sessionKeyById b \<and>
     sessionIdByFile b' = snd (getCached (Date_now e GetIdByFile) (sessionIdByFile b) f)"
  using first
proof (cases rule: handleUpdate_cases)
  case (fast k)
  with quiet show ?thesis by (simp add: payloads_chatEvent)
next
  case noId
  with idByFileAfter_cases(1) [OF i] show ?thesis by simp
next
  case unread
  with idByFileAfter_cases(1) [OF i] show ?thesis by simp
qed (use i in simp_all)

text \<open>
  Claim C4 (what a failed notification caches), as the code has it. When handling ends without
  an emission, the file \<open>\<rightarrow>\<close> key cache and the identifier \<open>\<rightarrow>\<close> key cache gain and change no
  entry (every entry they hold afterwards they held before; expired entries that were looked
  up are gone). When no identifier was obtained (the header reader reports not-found, or
  throws on closing the file), the same holds for the file \<open>\<rightarrow>\<close> identifier cache. When an
  identifier \<open>X\<close> was obtained and not resolved, there are two cases.

  \<^item> \<open>X\<close> came from the file \<open>\<rightarrow>\<close> identifier cache: the header was not read and that cache is
    left exactly as it was.
  \<^item> \<open>X\<close> was not cached: the header reader was called and returned \<open>X\<close>, and that cache has
    gained exactly the entry of the file, with the value \<open>X\<close> and the time of the write.

  In both cases a lookup of \<open>X\<close> in the identifier \<open>\<rightarrow>\<close> key cache misses at any later time.
  A later notification for the same file re-attempts: after a header failure it reads the
  header again; after a resolution failure for \<open>X\<close> it calls the resolver with \<open>X\<close> again
  without reading the header while the file \<open>\<rightarrow>\<close> identifier entry is valid, and reads the
  header again once that entry has expired.
\<close>

theorem failure_caches:
  assumes "handleUpdate e b f = (out, b', tr)" and "payloads tr = []"
  shows
    "sessionKeyByFile b' \<subseteq>\<^sub>m sessionKeyByFile b \<and>
     sessionKeyById b' \<subseteq>\<^sub>m sessionKeyById b \<and>
     (identifierOf e b f = Returns None \<or> identifierOf e b f = Throws \<longrightarrow>
        sessionIdByFile b' \<subseteq>\<^sub>m sessionIdByFile b) \<and>
     (\<forall>sid. identifierOf e b f = Returns (Some sid) \<longrightarrow>
        (cachedIdOf e b f = Some sid \<and> ReadHeader f \<notin> set tr \<and>
         sessionIdByFile b' = sessionIdByFile b \<or>
         cachedIdOf e b f = None \<and> ReadHeader f \<in> set tr \<and>
         readSessionIdFromTranscript e f = Returns (Some sid) \<and>
         sessionIdByFile b' =
           (sessionIdByFile b)(f \<mapsto> \<lparr>val = sid, ts = Date_now e SetIdByFile\<rparr>)) \<and>
        (\<forall>e2. cachedKeyOfId e2 b' sid = None)) \<and>
     (\<forall>e2 out2 b2 tr2. handleUpdate e2 b' f = (out2, b2, tr2) \<longrightarrow>
        (identifierOf e b f = Returns None \<or> identifierOf e b f = Throws \<longrightarrow>
           ReadHeader f \<in> set tr2) \<and>
        (\<forall>sid. identifierOf e b f = Returns (Some sid) \<longrightarrow>
           (cachedIdOf e2 b' f = None \<longrightarrow> ReadHeader f \<in> set tr2) \<and>
           (cachedIdOf e2 b' f \<noteq> None \<longrightarrow>
              ResolveKey sid \<in> set tr2 \<and> ReadHeader f \<notin> set tr2)))"
proof -
  note first = assms(1) and quiet = assms(2)
  have kf: "sessionKeyByFile b' \<subseteq>\<^sub>m sessionKeyByFile b"
    using quiet_keyByFile [OF first quiet] by (simp add: keyByFileAfter_le)
  have ki: "sessionKeyById b' \<subseteq>\<^sub>m sessionKeyById b"
  proof (cases "identifierOf e b f")
    case Throws
    then have "identifierOf e b f = Returns None \<or> identifierOf e b f = Throws" by simp
    from noid_caches [OF first quiet this] show ?thesis by simp
  next
    case (Returns r)
    show ?thesis
    proof (cases r)
      case None
      with Returns have "identifierOf e b f = Returns None \<or> identifierOf e b f = Throws"
        by simp
      from noid_caches [OF first quiet this] show ?thesis by simp
    next
      case (Some sid)
      with Returns have "identifierOf e b f = Returns (Some sid)" by simp
      from quiet_keyById [OF first quiet this] show ?thesis by (simp add: getCached_snd_le)
    qed
  qed
  have idn: "sessionIdByFile b' \<subseteq>\<^sub>m sessionIdByFile b"
    if "identifierOf e b f = Returns None \<or> identifierOf e b f = Throws"
    using noid_caches [OF first quiet that] by (simp add: getCached_snd_le)
  have ids: "(cachedIdOf e b f = Some sid \<and> ReadHeader f \<notin> set tr \<and>
         sessionIdByFile b' = sessionIdByFile b \<or>
         cachedIdOf e b f = None \<and> ReadHeader f \<in> set tr \<and>
         readSessionIdFromTranscript e f = Returns (Some sid) \<and>
         sessionIdByFile b' =
           (sessionIdByFile b)(f \<mapsto> \<lparr>val = sid, ts = Date_now e SetIdByFile\<rparr>)) \<and>
        (\<forall>e2. cachedKeyOfId e2 b' sid = None)"
    if i: "identifierOf e b f = Returns (Some sid)" for sid
  proof -
    from quiet_keyById [OF first quiet i]
    have k: "\<forall>e2. cachedKeyOfId e2 b' sid = None"
      and s: "sessionIdByFile b' = idByFileAfter e b f"
      by simp_all
    from quiet_trace [OF first quiet]
    have t: "ReadHeader f \<in> set tr \<longleftrightarrow> cachedIdOf e b f = None" by simp
    from idByFileAfter_cases(2) [OF i] show ?thesis
    proof
      assume "cachedIdOf e b f = Some sid \<and> idByFileAfter e b f = sessionIdByFile b"
      with k s t show ?thesis by simp
    next
      assume "cachedIdOf e b f = None \<and>
        readSessionIdFromTranscript e f = Returns (Some sid) \<and>
        idByFileAfter e b f =
          (sessionIdByFile b)(f \<mapsto> \<lparr>val = sid, ts = Date_now e SetIdByFile\<rparr>)"
      with k s t show ?thesis by simp
    qed
  qed
  have again: "(identifierOf e b f = Returns None \<or> identifierOf e b f = Throws \<longrightarrow>
           ReadHeader f \<in> set tr2) \<and>
        (\<forall>sid. identifierOf e b f = Returns (Some sid) \<longrightarrow>
           (cachedIdOf e2 b' f = None \<longrightarrow> ReadHeader f \<in> set tr2) \<and>
           (cachedIdOf e2 b' f \<noteq> None \<longrightarrow>
              ResolveKey sid \<in> set tr2 \<and> ReadHeader f \<notin> set tr2))"
    if second: "handleUpdate e2 b' f = (out2, b2, tr2)" for e2 out2 b2 tr2
  proof -
    note miss = quiet_miss [OF first quiet, of e2]
    have a: "ReadHeader f \<in> set tr2"
      if "identifierOf e b f = Returns None \<or> identifierOf e b f = Throws"
      using reads_on_miss [OF second miss quiet_noid [OF first quiet that]] .
    have b: "ReadHeader f \<in> set tr2" if "cachedIdOf e2 b' f = None"
      using reads_on_miss [OF second miss that] .
    have c: "ResolveKey sid \<in> set tr2 \<and> ReadHeader f \<notin> set tr2"
      if i: "identifierOf e b f = Returns (Some sid)" and n: "cachedIdOf e2 b' f \<noteq> None" for sid
    proof -
      from quiet_keyById [OF first quiet i, of e2]
      have k: "cachedKeyOfId e2 b' sid = None" and s: "sessionIdByFile b' = idByFileAfter e b f"
        by simp_all
      from cachedIdOf_after [OF i s, of e2] n have "cachedIdOf e2 b' f = Some sid" by simp
      from resolves_on_miss [OF second miss this k] show ?thesis .
    qed
    from a b c show ?thesis by blast
  qed
  from kf ki idn ids again show ?thesis by blast
qed

lemma demo_unregistered_first:
  "handleUpdate demo_unregistered attach (js ''a.log'') =
     (Returned, demo_half,
      [Lookup SessionKeyByFile (js ''a.log''), Lookup SessionIdByFile (js ''a.log''),
       ReadHeader (js ''a.log''), Lookup SessionKeyById (js ''sess-42''),
       ResolveKey (js ''sess-42''),
       Warn (js ''transcript update ignored; session key not found (sess-42)'')])"
  by (simp add: demo_unregistered_def demo_half_def model_defs demo_defs)

lemma demo_unregistered_second:
  "handleUpdate demo_unregistered demo_half (js ''a.log'') =
     (Returned, demo_half,
      [Lookup SessionKeyByFile (js ''a.log''), Lookup SessionIdByFile (js ''a.log''),
       Lookup SessionKeyById (js ''sess-42''), ResolveKey (js ''sess-42''),
       Warn (js ''transcript update ignored; session key not found (sess-42)'')])"
  by (simp add: demo_unregistered_def demo_half_def model_defs demo_defs)

lemma demo_unclosed_first:
  "handleUpdate demo_unclosed attach (js ''a.log'') =
     (Threw, attach,
      [Lookup SessionKeyByFile (js ''a.log''), Lookup SessionIdByFile (js ''a.log''),
       ReadHeader (js ''a.log'')])"
  by (simp add: demo_unclosed_def model_defs demo_defs)

theorem failure_caches_witness:
  "payloads (snd (snd (handleUpdate demo_unregistered attach (js ''a.log'')))) = [] \<and>
   identifierOf demo_unregistered attach (js ''a.log'') = Returns (Some (js ''sess-42'')) \<and>
   cachedIdOf demo_unregistered attach (js ''a.log'') = None \<and>
   sessionKeyByFile demo_half \<subseteq>\<^sub>m sessionKeyByFile attach \<and>
   sessionKeyById demo_half \<subseteq>\<^sub>m sessionKeyById attach \<and>
   sessionIdByFile demo_half =
     (sessionIdByFile attach)(js ''a.log'' \<mapsto>
        \<lparr>val = js ''sess-42'', ts = Date_now demo_unregistered SetIdByFile\<rparr>) \<and>
   cachedKeyOfId demo_later demo_half (js ''sess-42'') = None \<and>
   cachedIdOf demo_unregistered demo_half (js ''a.log'') = Some (js ''sess-42'') \<and>
   ResolveKey (js ''sess-42'') \<in> set (snd (snd (handleUpdate demo_unregistered demo_half (js ''a.log'')))) \<and>
   sessionIdByFile demo_half = sessionIdByFile (fst (snd (handleUpdate demo_unregistered demo_half (js ''a.log'')))) \<and>
   identifierOf demo_unclosed attach (js ''a.log'') = Throws \<and>
   ReadHeader (js ''a.log'') \<in> set (snd (snd (handleUpdate demo_unclosed attach (js ''a.log''))))"
proof -
  have q: "payloads [Lookup SessionKeyByFile (js ''a.log''), Lookup SessionIdByFile (js ''a.log''),
       ReadHeader (js ''a.log''), Lookup SessionKeyById (js ''sess-42''),
       ResolveKey (js ''sess-42''),
       Warn (js ''transcript update ignored; session key not found (sess-42)'')] = []"
    by simp
  have q2: "payloads [Lookup SessionKeyByFile (js ''a.log''), Lookup SessionIdByFile (js ''a.log''),
       Lookup SessionKeyById (js ''sess-42''), ResolveKey (js ''sess-42''),
       Warn (js ''transcript update ignored; session key not found (sess-42)'')] = []"
    by simp
  have q3: "payloads [Lookup SessionKeyByFile (js ''a.log''), Lookup SessionIdByFile (js ''a.log''),
       ReadHeader (js ''a.log'')] = []"
    by simp
  have ne: "js ''sess-42'' \<noteq> []" by (simp add: js_def)
  have i: "identifierOf demo_unregistered attach (js ''a.log'') = Returns (Some (js ''sess-42''))"
    by (rule demo_identifier; simp add: demo_unregistered_def)
  have c: "cachedIdOf demo_unregistered demo_half (js ''a.log'') = Some (js ''sess-42'')"
    by (simp add: cachedIdOf_def demo_half_def getCached_def demo_unregistered_def demo_env_def
        CACHE_TTL_MS_def ne)
  then have i2: "identifierOf demo_unregistered demo_half (js ''a.log'') = Returns (Some (js ''sess-42''))"
    by (simp add: identifierOf_def)
  have t: "identifierOf demo_unclosed attach (js ''a.log'') = Throws"
    by (simp add: identifierOf_def demo_lookups readId_def read_eq demo_unclosed_def demo_env_def)
  have n: "cachedIdOf demo_unregistered attach (js ''a.log'') = None"
    by (rule demo_lookups)
  from failure_caches [OF demo_unregistered_first q]
    failure_caches [OF demo_unregistered_second q2]
    failure_caches [OF demo_unclosed_first q3]
    i i2 c t n demo_unregistered_second demo_unregistered_first demo_unclosed_first
  show ?thesis by (simp add: q)
qed

text \<open>
  The file \<open>\<rightarrow>\<close> identifier cache gains an entry although nothing was emitted: the identifier
  is cached as soon as it is read, before its key is looked for.
\<close>

theorem failure_caches_identifier_counterexample:
  "payloads (snd (snd (handleUpdate demo_unregistered attach (js ''a.log'')))) = [] \<and>
   sessionIdByFile attach (js ''a.log'') = None \<and>
   sessionIdByFile (fst (snd (handleUpdate demo_unregistered attach (js ''a.log'')))) (js ''a.log'')
     = Some \<lparr>val = js ''sess-42'', ts = 1000\<rparr>"
proof -
  have "sessionIdByFile attach (js ''a.log'') = None" by (simp add: attach_def)
  moreover have "sessionIdByFile demo_half (js ''a.log'') = Some \<lparr>val = js ''sess-42'', ts = 1000\<rparr>"
    by (simp add: demo_half_def)
  ultimately show ?thesis by (simp add: demo_unregistered_first)
qed

subsection \<open>Run identifiers\<close>

lemma onUpdate_payloads_form:
  "payloads (snd (snd (onUpdate e b u))) = [] \<or>
   (\<exists>p pre. payloads (snd (snd (onUpdate e b u))) = [p] \<and>
      runId p = js ''transcript-'' @ pre @ randomUUID e)"
proof (cases "whenTruthy (map_option trim u)")
  case None
  then show ?thesis by (simp add: onUpdate_payloads)
next
  case (Some f)
  obtain out b' tr where h: "handleUpdate e b f = (out, b', tr)"
    by (cases "handleUpdate e b f") auto
  have "payloads tr = [] \<or>
    (\<exists>p pre. payloads tr = [p] \<and> runId p = js ''transcript-'' @ pre @ randomUUID e)"
  proof (cases "cachedKeyOf e b f")
    case (Some k)
    with handleUpdate_payloads [OF h] have
      "payloads tr = [\<lparr>runId = js ''transcript-'' @ randomUUID e, sessionKey = k, state = js ''final''\<rparr>]
       \<and> runId \<lparr>runId = js ''transcript-'' @ randomUUID e, sessionKey = k, state = js ''final''\<rparr>
         = js ''transcript-'' @ [] @ randomUUID e"
      by simp
    then show ?thesis by blast
  next
    case None
    show ?thesis
    proof (cases "\<exists>sid. identifierOf e b f = Returns (Some sid)")
      case False
      with None handleUpdate_payloads [OF h] show ?thesis
        by (auto split: completion.splits option.splits)
    next
      case True
      then obtain sid where Some: "identifierOf e b f = Returns (Some sid)" by blast
      show ?thesis
      proof (cases "\<exists>k. keyOf e b sid = Returns (Some k)")
        case True
        then obtain k where "keyOf e b sid = Returns (Some k)" by blast
        with None Some handleUpdate_payloads [OF h] have
          "payloads tr = [\<lparr>runId = js ''transcript-'' @ sid @ js ''-'' @ randomUUID e,
              sessionKey = k, state = js ''final''\<rparr>]
           \<and> runId \<lparr>runId = js ''transcript-'' @ sid @ js ''-'' @ randomUUID e,
              sessionKey = k, state = js ''final''\<rparr>
             = js ''transcript-'' @ (sid @ js ''-'') @ randomUUID e"
          by simp
        then show ?thesis by blast
      next
        case False
        with None Some handleUpdate_payloads [OF h] show ?thesis
          by (auto split: completion.splits option.splits)
      qed
    qed
  qed
  with Some h show ?thesis by (simp add: onUpdate_payloads)
qed

lemma run_payload_runId:
  "p \<in> set (payloads (snd (run b steps))) \<Longrightarrow>
   \<exists>s\<in>set steps. \<exists>pre. runId p = js ''transcript-'' @ pre @ randomUUID (fst s)"
proof (induction steps arbitrary: b)
  case Nil
  then show ?case by simp
next
  case (Cons s steps)
  obtain e u where s: "s = (e, u)" by (cases s)
  from Cons.prems consider
      "p \<in> set (payloads (snd (snd (onUpdate e b u))))"
    | "p \<in> set (payloads (snd (run (fst (snd (onUpdate e b u))) steps)))"
    by (auto simp: s run_Cons payloads_append)
  then show ?case
  proof cases
    case 1
    with onUpdate_payloads_form [of e b u]
    have "\<exists>pre. runId p = js ''transcript-'' @ pre @ randomUUID e" by auto
    with s show ?thesis by simp
  next
    case 2
    from Cons.IH [OF this] show ?thesis by auto
  qed
qed

lemma same_length_suffix:
  assumes "a @ x = c @ y" "length x = length y"
  shows "x = y"
  using assms by (simp add: append_eq_append_conv)

lemma run_distinct:
  assumes "\<forall>s\<in>set steps. length (randomUUID (fst s)) = 36"
    and "distinct (map (\<lambda>s. randomUUID (fst s)) steps)"
  shows "distinct (map runId (payloads (snd (run b steps))))"
  using assms
proof (induction steps arbitrary: b)
  case Nil
  then show ?case by simp
next
  case (Cons s steps)
  obtain e u where s: "s = (e, u)" by (cases s)
  let ?b1 = "fst (snd (onUpdate e b u))"
  from Cons have IH: "distinct (map runId (payloads (snd (run ?b1 steps))))" by simp
  have fresh: "runId p \<noteq> js ''transcript-'' @ pre @ randomUUID e"
    if "p \<in> set (payloads (snd (run ?b1 steps)))" for p pre
  proof
    assume eq: "runId p = js ''transcript-'' @ pre @ randomUUID e"
    from run_payload_runId [OF that] obtain s' pre' where
      s': "s' \<in> set steps" and r: "runId p = js ''transcript-'' @ pre' @ randomUUID (fst s')"
      by blast
    from Cons.prems(1) s s' have "length (randomUUID (fst s')) = length (randomUUID e)" by simp
    with eq r have "randomUUID (fst s') = randomUUID e"
      using same_length_suffix [of pre' "randomUUID (fst s')" pre "randomUUID e"] by simp
    with Cons.prems(2) s s' show False by (force simp: image_iff)
  qed
  from onUpdate_payloads_form [of e b u] show ?case
  proof
    assume "payloads (snd (snd (onUpdate e b u))) = []"
    with IH show ?thesis by (simp add: s run_Cons payloads_append)
  next
    assume "\<exists>p pre. payloads (snd (snd (onUpdate e b u))) = [p] \<and>
      runId p = js ''transcript-'' @ pre @ randomUUID e"
    then obtain p pre where p: "payloads (snd (snd (onUpdate e b u))) = [p]"
      and rp: "runId p = js ''transcript-'' @ pre @ randomUUID e" by blast
    have "runId x \<noteq> runId p" if "x \<in> set (payloads (snd (run ?b1 steps)))" for x
      using fresh [OF that, of pre] by (simp add: rp)
    then have "runId p \<notin> set (map runId (payloads (snd (run ?b1 steps))))" by force
    with IH p show ?thesis by (simp add: s run_Cons payloads_append)
  qed
qed

text \<open>
  Claim C8 (distinct run identifiers per emission). If the generator returns UUIDs and never
  repeats one over the notifications of a run, then all the payloads broadcast in that run,
  from whatever bridge it starts, carry pairwise different run identifiers. In particular two
  successive updates for a file whose key is served by the cache, with different UUIDs,
  broadcast one payload each, with different run identifiers and the same session key.
\<close>

theorem distinct_run_identifiers:
  "((\<forall>s\<in>set steps. isUUID (randomUUID (fst s))) \<and>
    distinct (map (\<lambda>s. randomUUID (fst s)) steps) \<longrightarrow>
      distinct (map runId (payloads (snd (run b steps))))) \<and>
   (cachedKeyOf e1 b f = Some k \<and> cachedKeyOf e2 b f = Some k \<and>
    randomUUID e1 \<noteq> randomUUID e2 \<and>
    handleUpdate e1 b f = (out1, b1, tr1) \<and> handleUpdate e2 b1 f = (out2, b2, tr2) \<longrightarrow>
      (\<exists>p1 p2. payloads tr1 = [p1] \<and> payloads tr2 = [p2] \<and> runId p1 \<noteq> runId p2 \<and>
         sessionKey p1 = k \<and> sessionKey p2 = k))"
proof -
  have general: "distinct (map runId (payloads (snd (run b steps))))"
    if "(\<forall>s\<in>set steps. isUUID (randomUUID (fst s))) \<and>
        distinct (map (\<lambda>s. randomUUID (fst s)) steps)"
    using that by (intro run_distinct) (simp_all add: isUUID_def)
  have twice: "\<exists>p1 p2. payloads tr1 = [p1] \<and> payloads tr2 = [p2] \<and> runId p1 \<noteq> runId p2 \<and>
         sessionKey p1 = k \<and> sessionKey p2 = k"
    if h: "cachedKeyOf e1 b f = Some k \<and> cachedKeyOf e2 b f = Some k \<and>
      randomUUID e1 \<noteq> randomUUID e2 \<and>
      handleUpdate e1 b f = (out1, b1, tr1) \<and> handleUpdate e2 b1 f = (out2, b2, tr2)"
  proof -
    from h have h1: "handleUpdate e1 b f = (out1, b1, tr1)"
      and h2: "handleUpdate e2 b1 f = (out2, b2, tr2)"
      and c1: "cachedKeyOf e1 b f = Some k" and c2: "cachedKeyOf e2 b f = Some k"
      and d: "randomUUID e1 \<noteq> randomUUID e2" by simp_all
    from h1 c1 have "b1 = b" by (simp add: handleUpdate_eq keyByFileAfter_hit)
    with c2 have c2': "cachedKeyOf e2 b1 f = Some k" by simp
    from handleUpdate_payloads [OF h1] c1 handleUpdate_payloads [OF h2] c2' d
    show ?thesis by simp
  qed
  from general twice show ?thesis by blast
qed

theorem distinct_run_identifiers_witness:
  "isUUID (randomUUID demo_env) \<and> isUUID (randomUUID demo_later) \<and>
   randomUUID demo_env \<noteq> randomUUID demo_later \<and>
   distinct (map runId (payloads (snd (run attach
     [(demo_env, Some (js ''a.log'')), (demo_later, Some (js ''a.log''))])))) \<and>
   cachedKeyOf demo_env demo_bridge (js ''a.log'') = Some (js ''key-alpha'') \<and>
   cachedKeyOf demo_later demo_bridge (js ''a.log'') = Some (js ''key-alpha'') \<and>
   map sessionKey (payloads (snd (snd (handleUpdate demo_env demo_bridge (js ''a.log'')))) @
     payloads (snd (snd (handleUpdate demo_later demo_bridge (js ''a.log''))))) =
     [js ''key-alpha'', js ''key-alpha'']"
proof -
  have u: "isUUID (randomUUID demo_env)" "isUUID (randomUUID demo_later)"
    "randomUUID demo_env \<noteq> randomUUID demo_later"
    by (simp_all add: demo_env_def demo_later_def isUUID_def isHexDigit_def js_def enumerate_eq_zip
        upt_rec)
  have ne: "js ''key-alpha'' \<noteq> []" by (simp add: js_def)
  have c: "cachedKeyOf demo_env demo_bridge (js ''a.log'') = Some (js ''key-alpha'')"
    "cachedKeyOf demo_later demo_bridge (js ''a.log'') = Some (js ''key-alpha'')"
    by (simp_all add: cachedKeyOf_def demo_bridge_def getCached_def demo_later_def demo_env_def
        CACHE_TTL_MS_def ne)
  obtain out1 tr1 where h1: "handleUpdate demo_env demo_bridge (js ''a.log'') = (out1, demo_bridge, tr1)"
    using c(1) by (simp add: handleUpdate_eq keyByFileAfter_hit)
  obtain out2 tr2 where h2: "handleUpdate demo_later demo_bridge (js ''a.log'') = (out2, demo_bridge, tr2)"
    using c(2) by (simp add: handleUpdate_eq keyByFileAfter_hit)
  from
    distinct_run_identifiers [where steps = "[(demo_env, Some (js ''a.log'')), (demo_later, Some (js ''a.log''))]"
      and b = attach, THEN conjunct1]
    distinct_run_identifiers [where b = demo_bridge and ?e1.0 = demo_env and f = "js ''a.log''"
      and k = "js ''key-alpha''" and ?e2.0 = demo_later and ?out1.0 = out1 and ?b1.0 = demo_bridge
      and ?tr1.0 = tr1 and ?out2.0 = out2 and ?b2.0 = demo_bridge and ?tr2.0 = tr2,
      THEN conjunct2]
    u c h1 h2
  show ?thesis by auto
qed

end
